theory Spec2Isabelle
  imports Main
begin

section \<open>Values of the Python runtime used by bot.py\<close>

text \<open>
  Exceptions are values. Every constructor stands for a subclass of Python's
  \<^verbatim>\<open>Exception\<close>, which is what the two handlers catch with
  \<^verbatim>\<open>except Exception\<close>. \<open>UnknownValueError\<close> and \<open>RequestError\<close> are the
  two classes of the speech_recognition library that \<^verbatim>\<open>transcribe_audio\<close> names;
  \<open>LibraryError\<close> is any other exception raised inside an external library
  (network, decoding, authorisation, HTTP errors), tagged with its message.
\<close>

datatype exn =
    UnknownValueError
  | RequestError
  | KeyError string
  | OverflowError
  | FileNotFoundError string
  | LibraryError string

text \<open>
  A Python \<^verbatim>\<open>str\<close> is modelled as a \<open>string\<close> whose characters are the code points
  below 256; text with larger code points is outside the model.
  \<^verbatim>\<open>str.strip()\<close> removes leading and trailing characters for which
  \<^verbatim>\<open>str.isspace()\<close> holds, \<^verbatim>\<open>str.lower()\<close> maps every cased character to
  lower case.
\<close>

definition py_isspace :: "char \<Rightarrow> bool" where
  "py_isspace c =
     (let n = (of_char c :: nat)
      in (9 \<le> n \<and> n \<le> 13) \<or> (28 \<le> n \<and> n \<le> 32) \<or> n = 133 \<or> n = 160)"

definition py_strip :: "string \<Rightarrow> string" where
  "py_strip s = rev (dropWhile py_isspace (rev (dropWhile py_isspace s)))"

definition py_lower_char :: "char \<Rightarrow> char" where
  "py_lower_char c =
     (let n = (of_char c :: nat)
      in if (65 \<le> n \<and> n \<le> 90) \<or> (192 \<le> n \<and> n \<le> 222 \<and> n \<noteq> 215)
         then char_of (n + 32) else c)"

definition py_lower :: "string \<Rightarrow> string" where
  "py_lower s = map py_lower_char s"

text \<open>\<^verbatim>\<open>str(n)\<close> and \<^verbatim>\<open>"%0wd" % n\<close> for integers.\<close>

definition digit_char :: "nat \<Rightarrow> char" where
  "digit_char d = char_of (48 + d)"

function str_nat :: "nat \<Rightarrow> string" where
  "str_nat n = (if n < 10 then [digit_char n] else str_nat (n div 10) @ [digit_char (n mod 10)])"
  by pat_completeness auto
termination
  by (relation "measure (\<lambda>n. n)") auto

declare str_nat.simps [simp del]

definition str_int :: "int \<Rightarrow> string" where
  "str_int i = (if i < 0 then CHR ''-'' # str_nat (nat (- i)) else str_nat (nat i))"

definition zero_pad :: "nat \<Rightarrow> int \<Rightarrow> string" where
  "zero_pad width i =
     (if i < 0
      then CHR ''-'' # replicate (width - 1 - length (str_nat (nat (- i)))) CHR ''0'' @ str_nat (nat (- i))
      else replicate (width - length (str_nat (nat i))) CHR ''0'' @ str_nat (nat i))"

text \<open>
  The f-string rendering of a value that is either a string or \<^verbatim>\<open>None\<close>.
\<close>

definition fmt_opt :: "string option \<Rightarrow> string" where
  "fmt_opt v = (case v of None \<Rightarrow> ''None'' | Some s \<Rightarrow> s)"

subsection \<open>Naive datetimes\<close>

text \<open>
  \<^verbatim>\<open>datetime.utcnow()\<close> returns a naive datetime: the seven fields below.
  Adding a \<^verbatim>\<open>timedelta\<close> goes through the proleptic Gregorian ordinal of the date,
  as the standard library does, and raises \<^verbatim>\<open>OverflowError\<close> outside the years
  1 to 9999. \<^verbatim>\<open>isoformat()\<close> prints the microseconds only when they are not zero.
\<close>

record datetime =
  year :: int
  month :: int
  day :: int
  hour :: int
  minute :: int
  second :: int
  microsecond :: int

definition is_leap :: "int \<Rightarrow> bool" where
  "is_leap y = (y mod 4 = 0 \<and> (y mod 100 \<noteq> 0 \<or> y mod 400 = 0))"

definition days_before_year :: "int \<Rightarrow> int" where
  "days_before_year y = (y - 1) * 365 + (y - 1) div 4 - (y - 1) div 100 + (y - 1) div 400"

definition days_in_month_tab :: "int list" where
  "days_in_month_tab = [31, 28, 31, 30, 31, 30, 31, 31, 30, 31, 30, 31]"

definition days_before_month_tab :: "int list" where
  "days_before_month_tab = [0, 31, 59, 90, 120, 151, 181, 212, 243, 273, 304, 334]"

definition days_before_month :: "int \<Rightarrow> int \<Rightarrow> int" where
  "days_before_month y m =
     days_before_month_tab ! nat (m - 1) + (if m > 2 \<and> is_leap y then 1 else 0)"

definition ymd2ord :: "int \<Rightarrow> int \<Rightarrow> int \<Rightarrow> int" where
  "ymd2ord y m d = days_before_year y + days_before_month y m + d"

definition ord2ymd :: "int \<Rightarrow> int \<times> int \<times> int" where
  "ord2ymd n0 =
     (let n = n0 - 1;
          n400 = n div 146097; n = n mod 146097;
          n100 = n div 36524; n = n mod 36524;
          n4 = n div 1461; n = n mod 1461;
          n1 = n div 365; n = n mod 365;
          y = n400 * 400 + 1 + n100 * 100 + n4 * 4 + n1
      in if n1 = 4 \<or> n100 = 4 then (y - 1, 12, 31)
         else
           (let leapyear = (n1 = 3 \<and> (n4 \<noteq> 24 \<or> n100 = 3));
                m = (n + 50) div 32;
                preceding = days_before_month_tab ! nat (m - 1) + (if m > 2 \<and> leapyear then 1 else 0)
            in if preceding > n
               then (let m' = m - 1;
                         preceding' = preceding
                           - (days_in_month_tab ! nat (m' - 1) + (if m' = 2 \<and> leapyear then 1 else 0))
                     in (y, m', n - preceding' + 1))
               else (y, m, n - preceding + 1)))"

text \<open>Microseconds since the start of day 0 of the ordinal count.\<close>

definition dt_micros :: "datetime \<Rightarrow> int" where
  "dt_micros d =
     (((ymd2ord (year d) (month d) (day d) * 24 + hour d) * 60 + minute d) * 60 + second d) * 1000000
       + microsecond d"

definition timedelta_days :: "int \<Rightarrow> int" where
  "timedelta_days n = n * 86400000000"

definition timedelta_hours :: "int \<Rightarrow> int" where
  "timedelta_hours n = n * 3600000000"

definition dt_add :: "datetime \<Rightarrow> int \<Rightarrow> exn + datetime" where
  "dt_add d delta =
     (let total = dt_micros d + delta;
          days = total div 86400000000;
          rest = total mod 86400000000;
          secs = rest div 1000000;
          us = rest mod 1000000
      in if 0 < days \<and> days \<le> 3652059
         then (case ord2ymd days of (y, m, dd) \<Rightarrow>
                 Inr \<lparr>year = y, month = m, day = dd,
                      hour = secs div 3600, minute = (secs mod 3600) div 60,
                      second = (secs mod 3600) mod 60, microsecond = us\<rparr>)
         else Inl OverflowError)"

definition isoformat :: "datetime \<Rightarrow> string" where
  "isoformat d =
     zero_pad 4 (year d) @ ''-'' @ zero_pad 2 (month d) @ ''-'' @ zero_pad 2 (day d) @ ''T''
       @ zero_pad 2 (hour d) @ '':'' @ zero_pad 2 (minute d) @ '':'' @ zero_pad 2 (second d)
       @ (if microsecond d \<noteq> 0 then ''.'' @ zero_pad 6 (microsecond d) else [])"


section \<open>Data exchanged with the external services\<close>

text \<open>
  The JSON objects of the Calendar API are records. A key that the code reads and that
  may be missing from a returned object is an optional field: \<open>None\<close> is the missing
  key, so that \<^verbatim>\<open>event['summary']\<close> on it is a \<^verbatim>\<open>KeyError\<close> and
  \<^verbatim>\<open>.get('dateTime', d)\<close> is \<open>d\<close>.
\<close>

record creds =
  valid :: bool
  expired :: bool
  refresh_token :: "string option"

datatype service = Service creds

record time_field =
  tf_dateTime :: string
  tf_timeZone :: string

record attendee =
  email :: string

record event_body =
  body_summary :: string
  body_start :: time_field
  body_end :: time_field
  body_attendees :: "attendee list"

record event_start =
  dateTime :: "string option"
  date :: "string option"

record cal_event =
  ev_start :: "event_start option"
  ev_summary :: "string option"
  ev_htmlLink :: "string option"

record list_request =
  calendarId :: string
  timeMin :: string
  timeMax :: string
  singleEvents :: bool
  orderBy :: string

record list_response =
  items :: "cal_event list option"

text \<open>The outcome of a library call that writes a file: on failure a partial file may be left.\<close>

datatype write_outcome = Written | WriteFailed exn bool

text \<open>The inbound chat event: the sender and, for a text event, the text.\<close>

record update =
  from_user_id :: int
  msg_text :: string

section \<open>The world outside the process\<close>

text \<open>
  Every external call of bot.py is a field of \<open>world\<close>: what the service answers, or the
  exception its client library raises. The handlers are functions of the world, so a
  theorem for all worlds covers every behaviour of Telegram, the recogniser, Gemini,
  OAuth and the Calendar API.
  \<^item> \<open>utcnow w k\<close> is the \<open>k\<close>-th reading of the clock;
  \<^item> \<open>send_message w sent m\<close> is the outcome of \<^verbatim>\<open>reply_text(m)\<close> after the replies
    \<open>sent\<close>: \<open>None\<close> when delivered;
  \<^item> \<open>generate_content w p\<close> is \<^verbatim>\<open>model.generate_content(p).text\<close>;
  \<^item> \<open>from_client_secrets_file w\<close> is the exception raised when the client secrets
    cannot be loaded, \<open>None\<close> when the flow object is built;
  \<^item> \<open>token_write w\<close> is the outcome of opening and writing \<^verbatim>\<open>token.json\<close>.
\<close>

record world =
  utcnow :: "nat \<Rightarrow> datetime"
  send_message :: "string list \<Rightarrow> string \<Rightarrow> exn option"
  voice_get_file :: "exn + string"
  download_to_drive :: "string \<Rightarrow> string \<Rightarrow> write_outcome"
  audio_from_file :: "string \<Rightarrow> exn + string"
  audio_export :: "string \<Rightarrow> string \<Rightarrow> write_outcome"
  record_audio :: "string \<Rightarrow> exn + string"
  recognize_google :: "string \<Rightarrow> exn + string"
  generate_content :: "string \<Rightarrow> exn + string"
  from_authorized_user_file :: "exn + creds"
  creds_refresh :: "creds \<Rightarrow> exn + creds"
  from_client_secrets_file :: "exn option"
  run_local_server :: "exn + creds"
  token_write :: write_outcome
  build_service :: "creds \<Rightarrow> exn + service"
  events_list :: "service \<Rightarrow> list_request \<Rightarrow> exn + list_response"
  events_insert :: "service \<Rightarrow> event_body \<Rightarrow> exn + cal_event"
  events_delete :: "service \<Rightarrow> string \<Rightarrow> exn option"

text \<open>
  What one run of a handler can change: the replies delivered to the chat, the regular
  files on disk (by path), the requests sent to Google (OAuth and Calendar API, whether
  or not they succeed), the log, and the number of clock readings taken.
\<close>

datatype remote_call =
    OAuthRefresh
  | OAuthInteractiveFlow
  | EventsList list_request
  | EventsInsert string event_body
  | EventsDelete string string

datatype log_entry = LogInfo string | LogError exn

record state =
  outbox :: "string list"
  files :: "string set"
  requests :: "remote_call list"
  logged :: "log_entry list"
  clock_reads :: nat

subsection \<open>Statements, exceptions, try/except/finally\<close>

type_synonym 'a prog = "state \<Rightarrow> (exn + 'a) \<times> state"

definition ret :: "'a \<Rightarrow> 'a prog" where
  "ret v s = (Inr v, s)"

definition lift :: "exn + 'a \<Rightarrow> 'a prog" where
  "lift r s = (r, s)"

definition bnd :: "'a prog \<Rightarrow> ('a \<Rightarrow> 'b prog) \<Rightarrow> 'b prog" where
  "bnd m f s = (case m s of (Inl e, s') \<Rightarrow> (Inl e, s') | (Inr v, s') \<Rightarrow> f v s')"

definition try_except :: "'a prog \<Rightarrow> (exn \<Rightarrow> 'a prog) \<Rightarrow> 'a prog" where
  "try_except m h s = (case m s of (Inl e, s') \<Rightarrow> h e s' | (Inr v, s') \<Rightarrow> (Inr v, s'))"

text \<open>
  \<^verbatim>\<open>finally\<close>: the clean-up runs after the block whatever its outcome; an exception
  of the clean-up replaces the outcome of the block.
\<close>

definition try_finally :: "'a prog \<Rightarrow> unit prog \<Rightarrow> 'a prog" where
  "try_finally m fin s =
     (case m s of (r, s1) \<Rightarrow>
        (case fin s1 of (Inl e, s2) \<Rightarrow> (Inl e, s2) | (Inr _, s2) \<Rightarrow> (r, s2)))"

definition remote :: "remote_call \<Rightarrow> exn + 'a \<Rightarrow> 'a prog" where
  "remote call answer s = (answer, s\<lparr>requests := requests s @ [call]\<rparr>)"

definition utcnow_read :: "world \<Rightarrow> datetime prog" where
  "utcnow_read w s = (Inr (utcnow w (clock_reads s)), s\<lparr>clock_reads := Suc (clock_reads s)\<rparr>)"

definition logger_info :: "string \<Rightarrow> unit prog" where
  "logger_info m s = (Inr (), s\<lparr>logged := logged s @ [LogInfo m]\<rparr>)"

definition logger_error :: "exn \<Rightarrow> unit prog" where
  "logger_error e s = (Inr (), s\<lparr>logged := logged s @ [LogError e]\<rparr>)"

definition reply_text :: "world \<Rightarrow> string \<Rightarrow> unit prog" where
  "reply_text w m s =
     (case send_message w (outbox s) m of
        Some e \<Rightarrow> (Inl e, s)
      | None \<Rightarrow> (Inr (), s\<lparr>outbox := outbox s @ [m]\<rparr>))"

text \<open>Truthiness of a value that is \<^verbatim>\<open>None\<close> or a string.\<close>

definition truthy :: "string option \<Rightarrow> bool" where
  "truthy v = (case v of None \<Rightarrow> False | Some x \<Rightarrow> x \<noteq> [])"

definition os_path_join :: "string \<Rightarrow> string \<Rightarrow> string" where
  "os_path_join a b = a @ ''/'' @ b"

text \<open>
  The state knows the regular files of the working directory, by path.
  \<^verbatim>\<open>os.remove\<close> raises \<^verbatim>\<open>FileNotFoundError\<close> on a path without a file and removes
  an existing file. A directory at a staged path and a file that the process may not
  remove are not in this file system: there \<^verbatim>\<open>os.remove\<close> would raise after
  \<^verbatim>\<open>os.path.exists\<close> has answered yes.
\<close>

definition os_path_exists :: "string \<Rightarrow> state \<Rightarrow> bool" where
  "os_path_exists p s = (p \<in> files s)"

definition os_remove :: "string \<Rightarrow> unit prog" where
  "os_remove p s =
     (if p \<in> files s then (Inr (), s\<lparr>files := files s - {p}\<rparr>)
      else (Inl (FileNotFoundError p), s))"

definition write_file :: "string \<Rightarrow> write_outcome \<Rightarrow> unit prog" where
  "write_file p outcome s =
     (case outcome of
        Written \<Rightarrow> (Inr (), s\<lparr>files := insert p (files s)\<rparr>)
      | WriteFailed e partial \<Rightarrow>
          (Inl e, if partial then s\<lparr>files := insert p (files s)\<rparr> else s))"


section \<open>bot.py\<close>

subsection \<open>authenticate_google_calendar\<close>

text \<open>
  A stored token is loaded when \<^verbatim>\<open>token.json\<close> exists. Credentials that are missing
  or not valid are refreshed (when expired and a refresh token is present) or obtained
  by the interactive flow, which starts once the client secrets are loaded, and written
  back to \<^verbatim>\<open>token.json\<close>; then the client is built. Each of these steps may raise. A \<^verbatim>\<open>Credentials\<close> object is always truthy, so \<^verbatim>\<open>not creds\<close> is
  \<open>creds = None\<close>.
\<close>

definition interactive_flow :: "world \<Rightarrow> creds prog" where
  "interactive_flow w =
     (case from_client_secrets_file w of
        Some e \<Rightarrow> lift (Inl e)
      | None \<Rightarrow> remote OAuthInteractiveFlow (run_local_server w))"

definition obtain_creds :: "world \<Rightarrow> creds option \<Rightarrow> creds prog" where
  "obtain_creds w c =
     bnd (case c of
            Some c0 \<Rightarrow>
              if expired c0 \<and> truthy (refresh_token c0)
              then remote OAuthRefresh (creds_refresh w c0)
              else interactive_flow w
          | None \<Rightarrow> interactive_flow w)
       (\<lambda>c1. bnd (write_file ''token.json'' (token_write w)) (\<lambda>_. ret c1))"

definition authenticate_google_calendar :: "world \<Rightarrow> service prog" where
  "authenticate_google_calendar w =
     bnd (\<lambda>s. if os_path_exists ''token.json'' s
              then (case from_authorized_user_file w of
                      Inl e \<Rightarrow> (Inl e, s) | Inr c \<Rightarrow> (Inr (Some c), s))
              else (Inr None, s))
       (\<lambda>c. bnd (case c of
                   None \<Rightarrow> obtain_creds w c
                 | Some c0 \<Rightarrow> if \<not> valid c0 then obtain_creds w c else ret c0)
              (\<lambda>c1. lift (build_service w c1)))"

subsection \<open>transcribe_audio\<close>

text \<open>
  Opening and reading the audio file stands before the \<^verbatim>\<open>try\<close>; the \<^verbatim>\<open>try\<close>
  around the recognition has two \<^verbatim>\<open>except\<close> clauses, for \<open>UnknownValueError\<close> and
  \<open>RequestError\<close>.
\<close>

definition transcribe_audio :: "world \<Rightarrow> string \<Rightarrow> exn + string" where
  "transcribe_audio w audio_file =
     (case record_audio w audio_file of
        Inl e \<Rightarrow> Inl e
      | Inr audio \<Rightarrow>
          (case recognize_google w audio of
             Inr txt \<Rightarrow> Inr txt
           | Inl UnknownValueError \<Rightarrow> Inr ''Could not understand audio''
           | Inl RequestError \<Rightarrow> Inr ''API unavailable''
           | Inl e \<Rightarrow> Inl e))"

subsection \<open>analyze_intent\<close>

definition intent_prompt :: "string \<Rightarrow> string" where
  "intent_prompt txt =
     ''Analyze the intent of the following text and respond with one of the following: 'list_events', 'create_event', 'delete_event', or 'unknown'. Text: '' @ txt"

definition analyze_intent :: "world \<Rightarrow> string \<Rightarrow> exn + string" where
  "analyze_intent w txt =
     (case generate_content w (intent_prompt txt) of
        Inl e \<Rightarrow> Inl e
      | Inr response_text \<Rightarrow> Inr (py_lower (py_strip response_text)))"

subsection \<open>list_today_events, create_event, delete_event\<close>

definition list_today_events :: "world \<Rightarrow> service \<Rightarrow> cal_event list prog" where
  "list_today_events w svc =
     bnd (utcnow_read w) (\<lambda>t1.
     bnd (utcnow_read w) (\<lambda>t2.
     bnd (lift (dt_add t2 (timedelta_days 1))) (\<lambda>t3.
       let now = isoformat t1 @ ''Z'';
           tomorrow = isoformat t3 @ ''Z'';
           req = \<lparr>calendarId = ''primary'', timeMin = now, timeMax = tomorrow,
                  singleEvents = True, orderBy = ''startTime''\<rparr>
       in bnd (remote (EventsList req) (events_list w svc req)) (\<lambda>events_result.
            ret (case items events_result of None \<Rightarrow> [] | Some evs \<Rightarrow> evs)))))"

text \<open>
  \<^verbatim>\<open>create_event\<close> has no \<^verbatim>\<open>return\<close> statement, so its value is \<^verbatim>\<open>None\<close>.
  The result type is \<open>cal_event option\<close> to tell \<^verbatim>\<open>None\<close> from a returned record.
\<close>

definition create_event ::
  "world \<Rightarrow> service \<Rightarrow> string \<Rightarrow> string \<Rightarrow> string \<Rightarrow> string list option \<Rightarrow> cal_event option prog"
where
  "create_event w svc summary start_time end_time attendees =
     (let event = \<lparr>body_summary = summary,
                   body_start = \<lparr>tf_dateTime = start_time, tf_timeZone = ''UTC''\<rparr>,
                   body_end = \<lparr>tf_dateTime = end_time, tf_timeZone = ''UTC''\<rparr>,
                   body_attendees =
                     (case attendees of
                        None \<Rightarrow> []
                      | Some xs \<Rightarrow> if xs \<noteq> [] then map (\<lambda>e. \<lparr>email = e\<rparr>) xs else [])\<rparr>
      in bnd (remote (EventsInsert ''primary'' event) (events_insert w svc event)) (\<lambda>created.
         bnd (logger_info (''Event created: '' @ fmt_opt (ev_htmlLink created))) (\<lambda>_.
           ret None)))"

definition delete_event :: "world \<Rightarrow> service \<Rightarrow> string \<Rightarrow> unit prog" where
  "delete_event w svc event_id =
     bnd (remote (EventsDelete ''primary'' event_id)
            (case events_delete w svc event_id of Some e \<Rightarrow> Inl e | None \<Rightarrow> Inr ()))
       (\<lambda>_. logger_info (''Event deleted: '' @ event_id))"

subsection \<open>process_intent_and_perform_action\<close>

text \<open>
  The line of one event: \<^verbatim>\<open>event['start']\<close> and \<^verbatim>\<open>event['summary']\<close> raise
  \<^verbatim>\<open>KeyError\<close> on a missing key; the start is the \<^verbatim>\<open>dateTime\<close>, by default the
  \<^verbatim>\<open>date\<close>, by default \<^verbatim>\<open>None\<close>.
\<close>

definition event_line :: "cal_event \<Rightarrow> exn + string" where
  "event_line event =
     (case ev_start event of
        None \<Rightarrow> Inl (KeyError ''start'')
      | Some st \<Rightarrow>
          (let start = (case dateTime st of Some d \<Rightarrow> Some d | None \<Rightarrow> date st)
           in case ev_summary event of
                None \<Rightarrow> Inl (KeyError ''summary'')
              | Some sm \<Rightarrow> Inr (fmt_opt start @ '' - '' @ sm)))"

fun reply_events :: "world \<Rightarrow> cal_event list \<Rightarrow> unit prog" where
  "reply_events w [] = ret ()"
| "reply_events w (event # events) =
     bnd (lift (event_line event)) (\<lambda>line.
     bnd (reply_text w line) (\<lambda>_. reply_events w events))"

definition list_branch :: "world \<Rightarrow> service \<Rightarrow> unit prog" where
  "list_branch w svc =
     bnd (list_today_events w svc) (\<lambda>events.
       if events = [] then reply_text w ''No events found for today.''
       else reply_events w events)"

definition create_branch :: "world \<Rightarrow> service \<Rightarrow> unit prog" where
  "create_branch w svc =
     bnd (utcnow_read w) (\<lambda>t1.
     bnd (lift (dt_add t1 (timedelta_hours 1))) (\<lambda>t1'.
     bnd (utcnow_read w) (\<lambda>t2.
     bnd (lift (dt_add t2 (timedelta_hours 2))) (\<lambda>t2'.
     bnd (create_event w svc ''Meeting with Team'' (isoformat t1' @ ''Z'') (isoformat t2' @ ''Z'')
            (Some [''guest1@example.com'', ''guest2@example.com''])) (\<lambda>_.
       reply_text w ''Event created successfully.'')))))"

definition delete_branch :: "world \<Rightarrow> service \<Rightarrow> unit prog" where
  "delete_branch w svc =
     bnd (delete_event w svc ''your_event_id'') (\<lambda>_.
       reply_text w ''Event deleted successfully.'')"

definition unknown_branch :: "world \<Rightarrow> unit prog" where
  "unknown_branch w = reply_text w ''Unknown intent or action not supported.''"

definition process_intent_and_perform_action :: "world \<Rightarrow> update \<Rightarrow> string \<Rightarrow> unit prog" where
  "process_intent_and_perform_action w u txt =
     bnd (lift (analyze_intent w txt)) (\<lambda>intent.
     bnd (authenticate_google_calendar w) (\<lambda>svc.
       if intent = ''list_events'' then list_branch w svc
       else if intent = ''create_event'' then create_branch w svc
       else if intent = ''delete_event'' then delete_branch w svc
       else unknown_branch w))"

subsection \<open>handle_text\<close>

definition error_handler :: "world \<Rightarrow> exn \<Rightarrow> unit prog" where
  "error_handler w e =
     bnd (logger_error e) (\<lambda>_.
       reply_text w ''An error occurred while processing your request.'')"

definition text_try :: "world \<Rightarrow> update \<Rightarrow> unit prog" where
  "text_try w u =
     bnd (reply_text w (''Received Text: '' @ msg_text u)) (\<lambda>_.
       process_intent_and_perform_action w u (msg_text u))"

definition handle_text :: "world \<Rightarrow> update \<Rightarrow> unit prog" where
  "handle_text w u = try_except (text_try w u) (error_handler w)"

subsection \<open>handle_voice\<close>

text \<open>
  The \<^verbatim>\<open>try\<close> block assigns the two path variables on its way; \<open>voice_try\<close> returns
  their values at the point where the block ends, normally or by an exception, with
  the outcome. The \<^verbatim>\<open>finally\<close> block reads them.
\<close>

definition oga_path :: "update \<Rightarrow> string" where
  "oga_path u = os_path_join ''voice_messages'' (str_int (from_user_id u) @ ''.oga'')"

definition wav_path :: "update \<Rightarrow> string" where
  "wav_path u = os_path_join ''voice_messages'' (str_int (from_user_id u) @ ''.wav'')"

definition voice_rest :: "world \<Rightarrow> update \<Rightarrow> string \<Rightarrow> unit prog" where
  "voice_rest w u wav_file_path =
     bnd (lift (transcribe_audio w wav_file_path)) (\<lambda>txt.
     bnd (reply_text w (''Transcribed Text: '' @ txt)) (\<lambda>_.
       process_intent_and_perform_action w u txt))"

definition voice_try ::
  "world \<Rightarrow> update \<Rightarrow> state \<Rightarrow> ((exn + unit) \<times> string option \<times> string option) \<times> state"
where
  "voice_try w u s =
     (case voice_get_file w of
        Inl e \<Rightarrow> ((Inl e, None, None), s)
      | Inr file \<Rightarrow>
          (let file_path = oga_path u
           in case write_file file_path (download_to_drive w file file_path) s of
                (Inl e, s1) \<Rightarrow> ((Inl e, Some file_path, None), s1)
              | (Inr _, s1) \<Rightarrow>
                  (let wav_file_path = wav_path u
                   in case audio_from_file w file_path of
                        Inl e \<Rightarrow> ((Inl e, Some file_path, Some wav_file_path), s1)
                      | Inr audio \<Rightarrow>
                          (case bnd (write_file wav_file_path (audio_export w audio wav_file_path))
                                  (\<lambda>_. voice_rest w u wav_file_path) s1 of
                             (r, s2) \<Rightarrow> ((r, Some file_path, Some wav_file_path), s2)))))"

definition remove_if_exists :: "string option \<Rightarrow> unit prog" where
  "remove_if_exists p s =
     (case p of
        None \<Rightarrow> (Inr (), s)
      | Some path \<Rightarrow>
          if truthy p \<and> os_path_exists path s then os_remove path s else (Inr (), s))"

definition voice_cleanup :: "string option \<Rightarrow> string option \<Rightarrow> unit prog" where
  "voice_cleanup file_path wav_file_path =
     bnd (remove_if_exists file_path) (\<lambda>_. remove_if_exists wav_file_path)"

definition handle_voice :: "world \<Rightarrow> update \<Rightarrow> unit prog" where
  "handle_voice w u s =
     (case voice_try w u s of
        ((r, file_path, wav_file_path), s1) \<Rightarrow>
          try_finally (try_except (lift r) (error_handler w))
            (voice_cleanup file_path wav_file_path) s1)"


section \<open>Notions of the specification\<close>

text \<open>
  The specification's \<open>Intent\<close>: the classifier's reply, trimmed and lower-cased, matched
  exactly against the three action labels; anything else is \<open>Unknown\<close>. This definition
  follows the specification's words; \<open>route\<close> is the handler it selects. They are
  compared with the \<^verbatim>\<open>if\<close>/\<^verbatim>\<open>elif\<close> chain of the code below.
\<close>

datatype intent = ListEvents | CreateEvent | DeleteEvent | Unknown

definition action_labels :: "string set" where
  "action_labels = {''list_events'', ''create_event'', ''delete_event''}"

definition spec_classify :: "string \<Rightarrow> intent" where
  "spec_classify reply =
     (let label = py_lower (py_strip reply)
      in if label = ''list_events'' then ListEvents
         else if label = ''create_event'' then CreateEvent
         else if label = ''delete_event'' then DeleteEvent
         else Unknown)"

definition route :: "world \<Rightarrow> service \<Rightarrow> intent \<Rightarrow> unit prog" where
  "route w svc i =
     (case i of
        ListEvents \<Rightarrow> list_branch w svc
      | CreateEvent \<Rightarrow> create_branch w svc
      | DeleteEvent \<Rightarrow> delete_branch w svc
      | Unknown \<Rightarrow> unknown_branch w)"

text \<open>The transport delivers every reply.\<close>

definition delivers :: "world \<Rightarrow> bool" where
  "delivers w = (\<forall>sent m. send_message w sent m = None)"

text \<open>
  The line \<^verbatim>\<open>"{start} - {summary}"\<close> of an event that has a start object and a summary.
\<close>

definition line_of :: "cal_event \<Rightarrow> string" where
  "line_of event =
     (case dateTime (the (ev_start event)) of
        Some d \<Rightarrow> d
      | None \<Rightarrow> fmt_opt (date (the (ev_start event))))
     @ '' - '' @ the (ev_summary event)"

definition is_event_line :: "string \<Rightarrow> bool" where
  "is_event_line m = (\<exists>event. event_line event = Inr m)"

text \<open>
  The replies that follow the echo of a text event: a listing, a confirmation, the
  unsupported-intent message, or the generic error message after the lines already sent.
\<close>

definition reply_shape :: "string list \<Rightarrow> bool" where
  "reply_shape ms =
     (ms = [''No events found for today.'']
      \<or> (ms \<noteq> [] \<and> list_all is_event_line ms)
      \<or> ms = [''Event created successfully.'']
      \<or> ms = [''Event deleted successfully.'']
      \<or> ms = [''Unknown intent or action not supported.'']
      \<or> (\<exists>ls. ms = ls @ [''An error occurred while processing your request.'']
                \<and> list_all is_event_line ls))"

text \<open>The requests to the Calendar API proper: list, insert, delete.\<close>

definition is_events_call :: "remote_call \<Rightarrow> bool" where
  "is_events_call c =
     (case c of EventsList _ \<Rightarrow> True | EventsInsert _ _ \<Rightarrow> True | EventsDelete _ _ \<Rightarrow> True
      | _ \<Rightarrow> False)"

text \<open>
  What a block of the pipeline may change: \<open>extends s s'\<close> when the only file that
  may have been added is \<^verbatim>\<open>token.json\<close>, and requests and replies were only appended;
  \<open>silent\<close> when moreover no reply was sent.
\<close>

definition extends :: "state \<Rightarrow> state \<Rightarrow> bool" where
  "extends s s' =
     ((files s' = files s \<or> files s' = insert ''token.json'' (files s)) \<and>
      (\<exists>cs. requests s' = requests s @ cs) \<and>
      (\<exists>ms. outbox s' = outbox s @ ms))"

definition silent :: "state \<Rightarrow> state \<Rightarrow> bool" where
  "silent s s' = (extends s s' \<and> outbox s' = outbox s)"

text \<open>A block all of whose runs only extend the state.\<close>

definition extending :: "'a prog \<Rightarrow> bool" where
  "extending m = (\<forall>s r s'. m s = (r, s') \<longrightarrow> extends s s')"

section \<open>Concrete worlds, events and states\<close>

definition ten_o_clock :: datetime where
  "ten_o_clock = \<lparr>year = 2024, month = 5, day = 1, hour = 10, minute = 0, second = 0, microsecond = 0\<rparr>"

definition half_past_nine :: datetime where
  "half_past_nine = \<lparr>year = 2024, month = 5, day = 1, hour = 9, minute = 30, second = 0, microsecond = 0\<rparr>"

definition good_creds :: creds where
  "good_creds = \<lparr>valid = True, expired = False, refresh_token = Some ''r1''\<rparr>"

definition stale_creds :: creds where
  "stale_creds = \<lparr>valid = False, expired = True, refresh_token = Some ''r1''\<rparr>"

definition standup :: cal_event where
  "standup = \<lparr>ev_start = Some \<lparr>dateTime = Some ''2024-05-01T09:30:00Z'', date = None\<rparr>,
              ev_summary = Some ''Standup'', ev_htmlLink = Some ''https://calendar.example/e1''\<rparr>"

definition holiday :: cal_event where
  "holiday = \<lparr>ev_start = Some \<lparr>dateTime = None, date = Some ''2024-05-01''\<rparr>,
              ev_summary = Some ''Holiday'', ev_htmlLink = None\<rparr>"

text \<open>
  In \<open>calm_world\<close> every service answers: the clock stands at ten, the stored token is
  valid, the classifier says \<open>unknown\<close>, the calendar is empty.
\<close>

definition calm_world :: world where
  "calm_world =
     \<lparr>utcnow = (\<lambda>_. ten_o_clock),
      send_message = (\<lambda>_ _. None),
      voice_get_file = Inr ''file-1'',
      download_to_drive = (\<lambda>_ _. Written),
      audio_from_file = (\<lambda>_. Inr ''pcm''),
      audio_export = (\<lambda>_ _. Written),
      record_audio = (\<lambda>_. Inr ''pcm''),
      recognize_google = (\<lambda>_. Inr ''hello''),
      generate_content = (\<lambda>_. Inr ''unknown''),
      from_authorized_user_file = Inr good_creds,
      creds_refresh = (\<lambda>c. Inr good_creds),
      from_client_secrets_file = None,
      run_local_server = Inr good_creds,
      token_write = Written,
      build_service = (\<lambda>c. Inr (Service c)),
      events_list = (\<lambda>_ _. Inr \<lparr>items = Some []\<rparr>),
      events_insert = (\<lambda>_ _. Inr standup),
      events_delete = (\<lambda>_ _. None)\<rparr>"

definition listing_world :: world where
  "listing_world =
     calm_world\<lparr>generate_content := (\<lambda>_. Inr '' List_Events ''),
                events_list := (\<lambda>_ _. Inr \<lparr>items = Some [standup, holiday]\<rparr>)\<rparr>"

definition running_world :: world where
  "running_world = calm_world\<lparr>events_list := (\<lambda>_ _. Inr \<lparr>items = Some [standup]\<rparr>)\<rparr>"

definition bad_wav_world :: world where
  "bad_wav_world = calm_world\<lparr>record_audio := (\<lambda>_. Inl (LibraryError ''not a WAV file''))\<rparr>"

definition stale_token_world :: world where
  "stale_token_world = calm_world\<lparr>from_authorized_user_file := Inr stale_creds\<rparr>"

definition no_auth_world :: world where
  "no_auth_world =
     calm_world\<lparr>from_authorized_user_file := Inl (LibraryError ''invalid token file'')\<rparr>"

definition gemini_down_world :: world where
  "gemini_down_world = calm_world\<lparr>generate_content := (\<lambda>_. Inl (LibraryError ''503''))\<rparr>"

definition chatty_world :: world where
  "chatty_world = calm_world\<lparr>generate_content := (\<lambda>_. Inr ''The intent is list_events.'')\<rparr>"

definition hello_update :: update where
  "hello_update = \<lparr>from_user_id = 7, msg_text = ''hello''\<rparr>"

definition fresh_state :: state where
  "fresh_state = \<lparr>outbox = [], files = {''token.json''}, requests = [], logged = [], clock_reads = 0\<rparr>"


definition deaf_world :: world where
  "deaf_world = calm_world\<lparr>recognize_google := (\<lambda>_. Inl UnknownValueError)\<rparr>"

definition next_day_ten :: datetime where
  "next_day_ten = \<lparr>year = 2024, month = 5, day = 2, hour = 10, minute = 0, second = 0, microsecond = 0\<rparr>"

definition lunch_body :: event_body where
  "lunch_body = \<lparr>body_summary = ''Lunch'',
                 body_start = \<lparr>tf_dateTime = ''2024-05-01T12:00:00Z'', tf_timeZone = ''UTC''\<rparr>,
                 body_end = \<lparr>tf_dateTime = ''2024-05-01T13:00:00Z'', tf_timeZone = ''UTC''\<rparr>,
                 body_attendees = []\<rparr>"

definition insert_fails_world :: world where
  "insert_fails_world =
     calm_world\<lparr>generate_content := (\<lambda>_. Inr ''create_event''),
                events_insert := (\<lambda>_ _. Inl (LibraryError ''HTTP 500''))\<rparr>"

definition flaky_world :: world where
  "flaky_world =
     gemini_down_world\<lparr>send_message :=
       (\<lambda>_ m. if m = ''An error occurred while processing your request.''
               then Some (LibraryError ''network'') else None)\<rparr>"

definition untitled :: cal_event where
  "untitled = \<lparr>ev_start = Some \<lparr>dateTime = Some ''2024-05-01T11:00:00Z'', date = None\<rparr>,
               ev_summary = None, ev_htmlLink = None\<rparr>"

definition untitled_world :: world where
  "untitled_world =
     calm_world\<lparr>generate_content := (\<lambda>_. Inr ''list_events''),
                events_list := (\<lambda>_ _. Inr \<lparr>items = Some [standup, untitled, holiday]\<rparr>)\<rparr>"

section \<open>Sequencing and frame lemmas\<close>

lemma bnd_Inr: "m s = (Inr v, s1) \<Longrightarrow> bnd m f s = f v s1"
  by (simp add: bnd_def)

lemma bnd_Inl: "m s = (Inl e, s1) \<Longrightarrow> bnd m f s = (Inl e, s1)"
  by (simp add: bnd_def)

lemma bnd_cases:
  assumes "bnd m f s = (r, s2)"
  obtains (raised) e where "m s = (Inl e, s2)" and "r = Inl e"
        | (returned) v s1 where "m s = (Inr v, s1)" and "f v s1 = (r, s2)"
  using assms by (auto simp: bnd_def split: prod.splits sum.splits)

lemma reply_text_delivers:
  "delivers w \<Longrightarrow> reply_text w m s = (Inr (), s\<lparr>outbox := outbox s @ [m]\<rparr>)"
  by (simp add: reply_text_def delivers_def)

lemma extends_refl: "extends s s"
  by (simp add: extends_def)

lemma extends_trans: "extends s s1 \<Longrightarrow> extends s1 s2 \<Longrightarrow> extends s s2"
  by (auto simp: extends_def)

lemma silent_extends: "silent s s' \<Longrightarrow> extends s s'"
  by (simp add: silent_def)

lemma silent_refl: "silent s s"
  by (simp add: silent_def extends_refl)

lemma silent_trans: "silent s s1 \<Longrightarrow> silent s1 s2 \<Longrightarrow> silent s s2"
  by (auto simp: silent_def intro: extends_trans)

lemma silent_outbox: "silent s s' \<Longrightarrow> outbox s' = outbox s"
  by (simp add: silent_def)

lemma lift_state: "lift x s = (r, s') \<Longrightarrow> s' = s \<and> r = x"
  by (auto simp: lift_def)

lemma utcnow_read_silent: "utcnow_read w s = (r, s') \<Longrightarrow> silent s s'"
  by (auto simp: utcnow_read_def silent_def extends_def)

lemma remote_silent: "remote c a s = (r, s') \<Longrightarrow> silent s s'"
  by (auto simp: remote_def silent_def extends_def)

lemma logger_info_silent: "logger_info m s = (r, s') \<Longrightarrow> silent s s'"
  by (auto simp: logger_info_def silent_def extends_def)

lemma logger_error_silent: "logger_error e s = (r, s') \<Longrightarrow> silent s s'"
  by (auto simp: logger_error_def silent_def extends_def)

lemma obtain_creds_silent:
  "obtain_creds w c s = (r, s') \<Longrightarrow> silent s s'"
  by (auto simp: obtain_creds_def interactive_flow_def bnd_def remote_def lift_def write_file_def
      ret_def silent_def extends_def
      split: option.splits if_splits sum.splits prod.splits write_outcome.splits)

lemma authenticate_silent:
  "authenticate_google_calendar w s = (r, s') \<Longrightarrow> silent s s'"
  unfolding authenticate_google_calendar_def
  by (auto simp: bnd_def lift_def ret_def silent_refl os_path_exists_def
      dest: obtain_creds_silent split: option.splits if_splits sum.splits prod.splits)

lemma list_today_events_silent:
  "list_today_events w svc s = (r, s') \<Longrightarrow> silent s s'"
  by (auto simp: list_today_events_def bnd_def lift_def ret_def utcnow_read_def remote_def
      silent_def extends_def Let_def split: sum.splits prod.splits)

lemma create_event_silent:
  "create_event w svc a b c d s = (r, s') \<Longrightarrow> silent s s'"
  by (auto simp: create_event_def bnd_def ret_def remote_def logger_info_def
      silent_def extends_def Let_def split: sum.splits prod.splits)

lemma delete_event_silent:
  "delete_event w svc i s = (r, s') \<Longrightarrow> silent s s'"
  by (auto simp: delete_event_def bnd_def remote_def logger_info_def
      silent_def extends_def split: sum.splits prod.splits option.splits)

lemma reply_text_extends: "reply_text w m s = (r, s') \<Longrightarrow> extends s s'"
  by (auto simp: reply_text_def extends_def split: option.splits)

lemma reply_events_extends: "reply_events w evs s = (r, s') \<Longrightarrow> extends s s'"
proof (induction evs arbitrary: s)
  case Nil
  then show ?case by (simp add: ret_def extends_refl)
next
  case (Cons ev evs)
  from Cons.prems show ?case
    by (auto simp: extends_refl elim!: bnd_cases dest!: lift_state
        dest: reply_text_extends Cons.IH intro: extends_trans)
qed

lemma extendingD: "extending m \<Longrightarrow> m s = (r, s') \<Longrightarrow> extends s s'"
  by (simp add: extending_def)

lemma extending_bnd:
  assumes "extending m" and "\<And>v. extending (f v)"
  shows "extending (bnd m f)"
  unfolding extending_def
proof (intro allI impI)
  fix s r s'
  assume "bnd m f s = (r, s')"
  then show "extends s s'"
  proof (cases rule: bnd_cases)
    case (raised e)
    with assms(1) show ?thesis by (simp add: extendingD)
  next
    case (returned v s1)
    from assms(1) returned(1) have "extends s s1" by (rule extendingD)
    moreover from assms(2) returned(2) have "extends s1 s'" by (rule extendingD)
    ultimately show ?thesis by (rule extends_trans)
  qed
qed

lemma extending_if:
  "extending a \<Longrightarrow> extending b \<Longrightarrow> extending (if c then a else b)"
  by simp

lemma extending_lift: "extending (lift x)"
  by (auto simp: extending_def dest: lift_state intro: extends_refl)

lemma extending_ret: "extending (ret x)"
  by (simp add: extending_def ret_def extends_refl)

lemma extending_reply_text: "extending (reply_text w m)"
  by (auto simp: extending_def dest: reply_text_extends)

lemma extending_reply_events: "extending (reply_events w evs)"
  by (auto simp: extending_def dest: reply_events_extends)

lemma extending_utcnow_read: "extending (utcnow_read w)"
  by (auto simp: extending_def dest: utcnow_read_silent silent_extends)

lemma extending_authenticate: "extending (authenticate_google_calendar w)"
  by (auto simp: extending_def dest: authenticate_silent silent_extends)

lemma extending_list_today_events: "extending (list_today_events w svc)"
  by (auto simp: extending_def dest: list_today_events_silent silent_extends)

lemma extending_create_event: "extending (create_event w svc a b c d)"
  by (auto simp: extending_def dest: create_event_silent silent_extends)

lemma extending_delete_event: "extending (delete_event w svc i)"
  by (auto simp: extending_def dest: delete_event_silent silent_extends)

lemma extending_logger_error: "extending (logger_error e)"
  by (auto simp: extending_def dest: logger_error_silent silent_extends)

lemmas extending_intros =
  extending_bnd extending_if extending_lift extending_ret extending_reply_text
  extending_reply_events extending_utcnow_read extending_authenticate
  extending_list_today_events extending_create_event extending_delete_event
  extending_logger_error

lemma extending_process: "extending (process_intent_and_perform_action w u txt)"
  unfolding process_intent_and_perform_action_def list_branch_def create_branch_def
    delete_branch_def unknown_branch_def
  by (intro extending_intros)

lemma extending_text_try: "extending (text_try w u)"
  unfolding text_try_def by (intro extending_intros extending_process)

lemma extending_error_handler: "extending (error_handler w e)"
  unfolding error_handler_def by (intro extending_intros)

lemma extending_voice_rest: "extending (voice_rest w u p)"
  unfolding voice_rest_def by (intro extending_intros extending_process)

lemma bnd_lift_Inr: "bnd (lift (Inr v)) f = f v"
  by (rule ext) (simp add: bnd_def lift_def)

lemma bnd_lift_Inl: "bnd (lift (Inl e)) f s = (Inl e, s)"
  by (simp add: bnd_def lift_def)

lemma event_line_line_of:
  "ev_start ev \<noteq> None \<Longrightarrow> ev_summary ev \<noteq> None \<Longrightarrow> event_line ev = Inr (line_of ev)"
  by (auto simp: event_line_def line_of_def fmt_opt_def split: option.splits)

lemma reply_events_lines:
  assumes "delivers w" and "\<forall>ev\<in>set evs. ev_start ev \<noteq> None \<and> ev_summary ev \<noteq> None"
  shows "reply_events w evs s = (Inr (), s\<lparr>outbox := outbox s @ map line_of evs\<rparr>)"
  using assms(2)
proof (induction evs arbitrary: s)
  case Nil
  then show ?case by (simp add: ret_def)
next
  case (Cons ev evs)
  then have l: "event_line ev = Inr (line_of ev)"
    by (simp add: event_line_line_of)
  from Cons have ih: "reply_events w evs s' = (Inr (), s'\<lparr>outbox := outbox s' @ map line_of evs\<rparr>)" for s'
    by simp
  show ?case
    by (simp add: l bnd_lift_Inr bnd_def reply_text_delivers [OF assms(1)] ih)
qed

lemma remove_if_exists_effect:
  "remove_if_exists p s = (Inr (), s\<lparr>files := files s - {q. p = Some q \<and> q \<noteq> []}\<rparr>)"
proof (cases p)
  case None
  then show ?thesis by (simp add: remove_if_exists_def)
next
  case (Some a)
  show ?thesis
  proof (cases "a \<noteq> [] \<and> a \<in> files s")
    case True
    then have "{q. p = Some q \<and> q \<noteq> []} = {a}" using Some by auto
    then show ?thesis
      using True Some
      by (simp add: remove_if_exists_def truthy_def os_path_exists_def os_remove_def)
  next
    case False
    then have "files s - {q. p = Some q \<and> q \<noteq> []} = files s" using Some by auto
    then show ?thesis
      using False Some
      by (auto simp: remove_if_exists_def truthy_def os_path_exists_def)
  qed
qed

lemma voice_cleanup_effect:
  "voice_cleanup fp wp s
     = (Inr (), s\<lparr>files := files s - {q. (fp = Some q \<or> wp = Some q) \<and> q \<noteq> []}\<rparr>)"
proof -
  have "files s - {q. fp = Some q \<and> q \<noteq> []} - {q. wp = Some q \<and> q \<noteq> []}
          = files s - {q. (fp = Some q \<or> wp = Some q) \<and> q \<noteq> []}"
    by auto
  then show ?thesis
    unfolding voice_cleanup_def
    by (simp add: bnd_def remove_if_exists_effect)
qed

lemma staged_paths_distinct:
  "oga_path u \<noteq> ''token.json''" "wav_path u \<noteq> ''token.json''"
  "oga_path u \<noteq> wav_path u" "oga_path u \<noteq> []" "wav_path u \<noteq> []"
  by (simp_all add: oga_path_def wav_path_def os_path_join_def)

lemma write_file_files:
  "write_file p outcome s = (r, s') \<Longrightarrow>
     files s' \<subseteq> insert p (files s) \<and> files s \<subseteq> files s' \<and> requests s' = requests s
     \<and> outbox s' = outbox s \<and> (r = Inr () \<longleftrightarrow> outcome = Written)"
  by (auto simp: write_file_def split: write_outcome.splits if_splits)

lemma voice_try_cases:
  assumes "voice_try w u s = ((r, fp, wp), s1)"
  shows "(\<exists>e. voice_get_file w = Inl e \<and> fp = None \<and> wp = None \<and> s1 = s)
       \<or> (\<exists>file. voice_get_file w = Inr file \<and> download_to_drive w file (oga_path u) \<noteq> Written
             \<and> fp = Some (oga_path u) \<and> wp = None \<and> files s1 \<subseteq> insert (oga_path u) (files s))
       \<or> (\<exists>file. voice_get_file w = Inr file \<and> download_to_drive w file (oga_path u) = Written
             \<and> fp = Some (oga_path u) \<and> wp = Some (wav_path u))"
proof (cases "voice_get_file w")
  case (Inl e)
  with assms show ?thesis by (simp add: voice_try_def)
next
  case (Inr fl)
  obtain r0 s0 where d: "write_file (oga_path u) (download_to_drive w fl (oga_path u)) s = (r0, s0)"
    by (cases "write_file (oga_path u) (download_to_drive w fl (oga_path u)) s")
  note f = write_file_files [OF d]
  show ?thesis
  proof (cases r0)
    case (Inl e)
    with assms Inr d f show ?thesis
      by (auto simp: voice_try_def Let_def)
  next
    case r: (Inr x)
    with f have "download_to_drive w fl (oga_path u) = Written" by simp
    with assms Inr d r show ?thesis
      by (auto simp: voice_try_def Let_def split: sum.splits prod.splits)
  qed
qed

lemma handle_voice_files:
  assumes "voice_try w u s = ((r, fp, wp), s1)"
  shows "\<exists>s2. extends s1 s2
      \<and> files (snd (handle_voice w u s))
          = files s2 - {q. (fp = Some q \<or> wp = Some q) \<and> q \<noteq> []}"
proof (cases r)
  case (Inl e)
  obtain r2 s2 where h: "error_handler w e s1 = (r2, s2)"
    by (cases "error_handler w e s1")
  then have "extends s1 s2"
    using extending_error_handler by (rule extendingD [rotated])
  moreover have "files (snd (handle_voice w u s))
          = files s2 - {q. (fp = Some q \<or> wp = Some q) \<and> q \<noteq> []}"
    using assms Inl h
    by (simp add: handle_voice_def try_finally_def try_except_def lift_def voice_cleanup_effect)
  ultimately show ?thesis by blast
next
  case (Inr x)
  have "files (snd (handle_voice w u s))
          = files s1 - {q. (fp = Some q \<or> wp = Some q) \<and> q \<noteq> []}"
    using assms Inr
    by (simp add: handle_voice_def try_finally_def try_except_def lift_def voice_cleanup_effect)
  then show ?thesis using extends_refl by blast
qed

lemma extends_requests: "extends s s' \<Longrightarrow> \<exists>cs. requests s' = requests s @ cs"
  by (simp add: extends_def)

lemma voice_try_requests:
  assumes "voice_try w u s = ((r, fp, wp), s1)"
  shows "\<exists>cs. requests s1 = requests s @ cs"
proof (cases "voice_get_file w")
  case (Inl e)
  with assms show ?thesis by (simp add: voice_try_def)
next
  case (Inr fl)
  obtain r0 s0 where d: "write_file (oga_path u) (download_to_drive w fl (oga_path u)) s = (r0, s0)"
    by (cases "write_file (oga_path u) (download_to_drive w fl (oga_path u)) s")
  from write_file_files [OF d] have q0: "requests s0 = requests s" by simp
  show ?thesis
  proof (cases r0)
    case (Inl e)
    with assms Inr d q0 show ?thesis by (auto simp: voice_try_def Let_def)
  next
    case r0: (Inr x)
    show ?thesis
    proof (cases "audio_from_file w (oga_path u)")
      case (Inl e)
      with assms Inr d r0 q0 show ?thesis by (auto simp: voice_try_def Let_def)
    next
      case a: (Inr audio)
      from assms Inr d r0 a
      have b: "bnd (write_file (wav_path u) (audio_export w audio (wav_path u)))
                 (\<lambda>_. voice_rest w u (wav_path u)) s0 = (r, s1)"
        by (auto simp: voice_try_def Let_def split: prod.splits)
      then have "\<exists>cs. requests s1 = requests s0 @ cs"
      proof (cases rule: bnd_cases)
        case (raised e)
        then show ?thesis by (auto dest: write_file_files)
      next
        case (returned v s')
        from returned(1) have "requests s' = requests s0" by (auto dest: write_file_files)
        moreover from returned(2) have "extends s' s1"
          using extending_voice_rest by (rule extendingD [rotated])
        ultimately show ?thesis by (auto dest: extends_requests)
      qed
      with q0 show ?thesis by simp
    qed
  qed
qed

lemma error_handler_result:
  "error_handler w e s1 =
     (case send_message w (outbox s1) ''An error occurred while processing your request.'' of
        None \<Rightarrow> (Inr (), s1\<lparr>logged := logged s1 @ [LogError e],
                   outbox := outbox s1 @ [''An error occurred while processing your request.'']\<rparr>)
      | Some e' \<Rightarrow> (Inl e', s1\<lparr>logged := logged s1 @ [LogError e]\<rparr>))"
  by (simp add: error_handler_def bnd_def logger_error_def reply_text_def split: option.splits)

lemma obtain_creds_calls:
  "obtain_creds w c s = (r, s') \<Longrightarrow>
     filter is_events_call (requests s') = filter is_events_call (requests s)"
  by (auto simp: obtain_creds_def interactive_flow_def bnd_def remote_def lift_def write_file_def
      ret_def is_events_call_def
      split: option.splits if_splits sum.splits prod.splits write_outcome.splits)

lemma authenticate_calls:
  "authenticate_google_calendar w s = (r, s') \<Longrightarrow>
     filter is_events_call (requests s') = filter is_events_call (requests s)"
  unfolding authenticate_google_calendar_def
  by (auto simp: bnd_def lift_def ret_def os_path_exists_def
      dest: obtain_creds_calls split: option.splits if_splits sum.splits prod.splits)

lemma reply_events_shape:
  assumes "delivers w" and "reply_events w evs s = (r, s')"
  shows "\<exists>ls. outbox s' = outbox s @ ls \<and> list_all is_event_line ls
           \<and> (r = Inr () \<longrightarrow> length ls = length evs)"
  using assms(2)
proof (induction evs arbitrary: s)
  case Nil
  then show ?case by (simp add: ret_def)
next
  case (Cons ev evs)
  show ?case
  proof (cases "event_line ev")
    case (Inl e)
    with Cons.prems show ?thesis by (auto simp: bnd_lift_Inl)
  next
    case (Inr line)
    then have l: "is_event_line line" by (auto simp: is_event_line_def)
    from Cons.prems Inr
    have "reply_events w evs (s\<lparr>outbox := outbox s @ [line]\<rparr>) = (r, s')"
      by (simp add: bnd_lift_Inr bnd_def reply_text_delivers [OF assms(1)])
    from Cons.IH [OF this] obtain ls where
      "outbox s' = (outbox s @ [line]) @ ls" "list_all is_event_line ls"
      "r = Inr () \<longrightarrow> length ls = length evs"
      by auto
    with l show ?thesis
      by (intro exI [of _ "line # ls"]) simp
  qed
qed

lemma list_branch_shape:
  assumes "delivers w" and "list_branch w svc s = (r, s')"
  shows "\<exists>ms. outbox s' = outbox s @ ms
      \<and> (case r of
            Inr _ \<Rightarrow> ms = [''No events found for today.''] \<or> (ms \<noteq> [] \<and> list_all is_event_line ms)
          | Inl _ \<Rightarrow> list_all is_event_line ms)"
  using assms(2) unfolding list_branch_def
proof (cases rule: bnd_cases)
  case (raised e)
  then show ?thesis by (auto dest!: list_today_events_silent silent_outbox)
next
  case (returned evs s1)
  from returned(1) have o: "outbox s1 = outbox s"
    by (auto dest!: list_today_events_silent silent_outbox)
  show ?thesis
  proof (cases "evs = []")
    case True
    with returned(2) o show ?thesis
      by (auto simp: reply_text_delivers [OF assms(1)])
  next
    case False
    with returned(2) have "reply_events w evs s1 = (r, s')" by simp
    from reply_events_shape [OF assms(1) this] obtain ls where
      "outbox s' = outbox s1 @ ls" "list_all is_event_line ls"
      "r = Inr () \<longrightarrow> length ls = length evs"
      by auto
    with o False show ?thesis
      by (intro exI [of _ ls]) (auto split: sum.splits)
  qed
qed

lemma create_branch_shape:
  assumes "delivers w" and "create_branch w svc s = (r, s')"
  shows "(r = Inr () \<and> outbox s' = outbox s @ [''Event created successfully.''])
       \<or> ((\<exists>e. r = Inl e) \<and> outbox s' = outbox s)"
  using assms(2) unfolding create_branch_def
  by (auto elim!: bnd_cases simp: reply_text_delivers [OF assms(1)]
      dest!: lift_state utcnow_read_silent create_event_silent silent_outbox)

lemma delete_branch_shape:
  assumes "delivers w" and "delete_branch w svc s = (r, s')"
  shows "(r = Inr () \<and> outbox s' = outbox s @ [''Event deleted successfully.''])
       \<or> ((\<exists>e. r = Inl e) \<and> outbox s' = outbox s)"
  using assms(2) unfolding delete_branch_def
  by (auto elim!: bnd_cases simp: reply_text_delivers [OF assms(1)]
      dest!: delete_event_silent silent_outbox)


lemma process_shape:
  assumes "delivers w" and "process_intent_and_perform_action w u txt s = (r, s')"
  shows "\<exists>ms. outbox s' = outbox s @ ms
      \<and> (case r of
            Inr _ \<Rightarrow> reply_shape ms
          | Inl _ \<Rightarrow> list_all is_event_line ms)"
  using assms(2) unfolding process_intent_and_perform_action_def
proof (cases rule: bnd_cases)
  case (raised e)
  then show ?thesis by (auto dest: lift_state)
next
  case i: (returned intent s0)
  then have s0: "s0 = s" by (auto dest: lift_state)
  from i(2) show ?thesis
  proof (cases rule: bnd_cases)
    case (raised e)
    then show ?thesis using s0 by (auto dest!: authenticate_silent silent_outbox)
  next
    case (returned svc s1)
    from returned(1) s0 have o: "outbox s1 = outbox s"
      by (auto dest!: authenticate_silent silent_outbox)
    consider (l) "list_branch w svc s1 = (r, s')"
      | (c) "create_branch w svc s1 = (r, s')"
      | (d) "delete_branch w svc s1 = (r, s')"
      | (u) "unknown_branch w s1 = (r, s')"
      using returned(2) by (auto split: if_splits)
    then show ?thesis
    proof cases
      case l
      from list_branch_shape [OF assms(1) l] o show ?thesis
        by (auto simp: reply_shape_def split: sum.splits)
    next
      case c
      from create_branch_shape [OF assms(1) c] o show ?thesis
        by (auto simp: reply_shape_def)
    next
      case d
      from delete_branch_shape [OF assms(1) d] o show ?thesis
        by (auto simp: reply_shape_def)
    next
      case u
      then show ?thesis using o
        by (auto simp: unknown_branch_def reply_text_delivers [OF assms(1)] reply_shape_def)
    qed
  qed
qed

lemma reply_shape_nonempty: "reply_shape ms \<Longrightarrow> ms \<noteq> []"
  by (auto simp: reply_shape_def)

section \<open>The claims\<close>

subsection \<open>Classification\<close>

text \<open>
  Claim C3. Whatever the classifier replies, the pipeline acts on the specification's
  intent of that reply: \<^verbatim>\<open>analyze_intent\<close> returns the reply trimmed and lower-cased,
  and the \<^verbatim>\<open>if\<close>/\<^verbatim>\<open>elif\<close> chain selects the handler of \<open>spec_classify reply\<close>,
  one of the four intents. A reply that, trimmed and lower-cased, is none of the three
  action labels has the intent \<open>Unknown\<close> and takes the last branch.
\<close>

theorem classification_routes:
  assumes "generate_content w (intent_prompt txt) = Inr reply"
  shows "analyze_intent w txt = Inr (py_lower (py_strip reply))
    \<and> process_intent_and_perform_action w u txt
        = bnd (authenticate_google_calendar w) (\<lambda>svc. route w svc (spec_classify reply))
    \<and> (py_lower (py_strip reply) \<notin> action_labels \<longrightarrow>
          spec_classify reply = Unknown
          \<and> process_intent_and_perform_action w u txt
              = bnd (authenticate_google_calendar w) (\<lambda>svc. unknown_branch w))"
proof -
  have a: "analyze_intent w txt = Inr (py_lower (py_strip reply))"
    using assms by (simp add: analyze_intent_def)
  have sel: "(if py_lower (py_strip reply) = ''list_events'' then list_branch w svc
         else if py_lower (py_strip reply) = ''create_event'' then create_branch w svc
         else if py_lower (py_strip reply) = ''delete_event'' then delete_branch w svc
         else unknown_branch w) = route w svc (spec_classify reply)" for svc
    by (simp add: route_def spec_classify_def Let_def)
  have r: "process_intent_and_perform_action w u txt
        = bnd (authenticate_google_calendar w) (\<lambda>svc. route w svc (spec_classify reply))"
    unfolding process_intent_and_perform_action_def a bnd_lift_Inr sel ..
  have u: "spec_classify reply = Unknown" if "py_lower (py_strip reply) \<notin> action_labels"
    using that by (simp add: spec_classify_def action_labels_def Let_def)
  show ?thesis using a r u by (simp add: route_def)
qed

theorem classification_routes_witness:
  "generate_content chatty_world (intent_prompt ''hello'') = Inr ''The intent is list_events.''
   \<and> py_lower (py_strip ''The intent is list_events.'') \<notin> action_labels
   \<and> spec_classify ''The intent is list_events.'' = Unknown
   \<and> analyze_intent chatty_world ''hello'' = Inr ''the intent is list_events.''"
proof -
  have g: "generate_content chatty_world (intent_prompt ''hello'') = Inr ''The intent is list_events.''"
    by (simp add: chatty_world_def calm_world_def)
  have n: "py_lower (py_strip ''The intent is list_events.'') = ''the intent is list_events.''"
    by code_simp
  have m: "''the intent is list_events.'' \<notin> action_labels"
    by (simp add: action_labels_def)
  show ?thesis
    using classification_routes [OF g, of hello_update] g n m by simp
qed

subsection \<open>Transcription\<close>

text \<open>
  Claim C4, as stated, fails: reading the audio file stands outside the \<^verbatim>\<open>try\<close>, so
  an exception of the decoder leaves \<^verbatim>\<open>transcribe_audio\<close>. Here the file is not a
  valid waveform.
\<close>

theorem transcribe_audio_raises_counterexample:
  "transcribe_audio bad_wav_world ''voice_messages/7.wav'' = Inl (LibraryError ''not a WAV file'')"
  by (simp add: transcribe_audio_def bad_wav_world_def calm_world_def)

text \<open>
  Claim C4, amended. Once the audio is read, the two exceptions of the recogniser that
  the function names become the two placeholder texts, returned as ordinary text, and
  recognised text is returned as it is. The function raises exactly when reading the
  file raises, or when recognition raises any other exception.
\<close>

theorem transcribe_audio_placeholders:
  "(record_audio w f = Inr a \<and> recognize_google w a = Inl UnknownValueError
      \<longrightarrow> transcribe_audio w f = Inr ''Could not understand audio'')
   \<and> (record_audio w f = Inr a \<and> recognize_google w a = Inl RequestError
      \<longrightarrow> transcribe_audio w f = Inr ''API unavailable'')
   \<and> (record_audio w f = Inr a \<and> recognize_google w a = Inr txt
      \<longrightarrow> transcribe_audio w f = Inr txt)
   \<and> (transcribe_audio w f = Inl e \<longleftrightarrow>
        record_audio w f = Inl e
        \<or> (\<exists>b. record_audio w f = Inr b \<and> recognize_google w b = Inl e
                \<and> e \<noteq> UnknownValueError \<and> e \<noteq> RequestError))"
  by (auto simp: transcribe_audio_def split: sum.splits exn.splits)

theorem transcribe_audio_placeholders_witness:
  "record_audio deaf_world ''voice_messages/7.wav'' = Inr ''pcm''
   \<and> recognize_google deaf_world ''pcm'' = Inl UnknownValueError
   \<and> transcribe_audio deaf_world ''voice_messages/7.wav'' = Inr ''Could not understand audio''"
  using transcribe_audio_placeholders [of deaf_world "''voice_messages/7.wav''" "''pcm''"]
  by (simp add: deaf_world_def calm_world_def)

subsection \<open>The calendar adapter\<close>

text \<open>
  Claim C7, as stated, fails: \<^verbatim>\<open>list_today_events\<close> returns the items of the
  service's answer as they are. The Calendar API answers a window query with every event
  that overlaps the window; with the clock at ten, the meeting that started at half past
  nine is returned, and its start lies before the window.
\<close>

theorem list_today_events_counterexample:
  "fst (list_today_events running_world (Service good_creds) fresh_state) = Inr [standup]
   \<and> utcnow running_world 0 = ten_o_clock
   \<and> ev_start standup = Some \<lparr>dateTime = Some (isoformat half_past_nine @ ''Z''), date = None\<rparr>
   \<and> dt_micros half_past_nine < dt_micros ten_o_clock"
proof -
  have 1: "fst (list_today_events running_world (Service good_creds) fresh_state) = Inr [standup]"
    by code_simp
  have 2: "utcnow running_world 0 = ten_o_clock"
    by (simp add: running_world_def calm_world_def)
  have i: "isoformat half_past_nine @ ''Z'' = ''2024-05-01T09:30:00Z''"
    by code_simp
  have 3: "ev_start standup = Some \<lparr>dateTime = Some (isoformat half_past_nine @ ''Z''), date = None\<rparr>"
    unfolding i by (simp add: standup_def)
  have 4: "dt_micros half_past_nine < dt_micros ten_o_clock"
    by code_simp
  show ?thesis using 1 2 3 4 by simp
qed

text \<open>
  Claim C7, amended. \<^verbatim>\<open>list_today_events\<close> sends one list request for the primary
  calendar with \<^verbatim>\<open>timeMin\<close> the first reading of the UTC clock, \<^verbatim>\<open>timeMax\<close> the second
  reading plus one day (both as \<^verbatim>\<open>isoformat() + 'Z'\<close>), \<^verbatim>\<open>singleEvents=True\<close> and
  \<^verbatim>\<open>orderBy='startTime'\<close>, and returns the items of the answer unchanged (the empty
  list when the answer has none); it neither filters nor sorts them.
\<close>

theorem list_today_events_request:
  assumes "dt_add (utcnow w (Suc (clock_reads s))) (timedelta_days 1) = Inr t3"
    and "req = \<lparr>calendarId = ''primary'',
                timeMin = isoformat (utcnow w (clock_reads s)) @ ''Z'',
                timeMax = isoformat t3 @ ''Z'',
                singleEvents = True, orderBy = ''startTime''\<rparr>"
  shows "requests (snd (list_today_events w svc s)) = requests s @ [EventsList req]
    \<and> fst (list_today_events w svc s)
        = (case events_list w svc req of
             Inl e \<Rightarrow> Inl e
           | Inr result \<Rightarrow> Inr (case items result of None \<Rightarrow> [] | Some evs \<Rightarrow> evs))"
  using assms
  by (auto simp: list_today_events_def bnd_def utcnow_read_def lift_def remote_def ret_def Let_def
      split: sum.splits)

theorem list_today_events_request_witness:
  "dt_add (utcnow running_world (Suc (clock_reads fresh_state))) (timedelta_days 1) = Inr next_day_ten
   \<and> requests (snd (list_today_events running_world (Service good_creds) fresh_state))
       = [EventsList \<lparr>calendarId = ''primary'', timeMin = ''2024-05-01T10:00:00Z'',
                      timeMax = ''2024-05-02T10:00:00Z'', singleEvents = True,
                      orderBy = ''startTime''\<rparr>]
   \<and> fst (list_today_events running_world (Service good_creds) fresh_state) = Inr [standup]"
proof -
  have h: "dt_add (utcnow running_world (Suc (clock_reads fresh_state))) (timedelta_days 1)
             = Inr next_day_ten"
    by code_simp
  have a: "isoformat (utcnow running_world (clock_reads fresh_state)) @ ''Z'' = ''2024-05-01T10:00:00Z''"
    by code_simp
  have b: "isoformat next_day_ten @ ''Z'' = ''2024-05-02T10:00:00Z''"
    by code_simp
  have e: "events_list running_world svc req = Inr \<lparr>items = Some [standup]\<rparr>" for svc req
    by (simp add: running_world_def calm_world_def)
  have r: "requests fresh_state = []"
    by (simp add: fresh_state_def)
  show ?thesis
    using list_today_events_request [OF h refl, of "Service good_creds"] h
    by (simp add: a b e r)
qed

text \<open>
  Claim C8, as stated, fails in its last part: \<^verbatim>\<open>create_event\<close> has no
  \<^verbatim>\<open>return\<close> statement. The service answers the insertion with the created record,
  and the function returns \<^verbatim>\<open>None\<close>.
\<close>

theorem create_event_returns_none_counterexample:
  "events_insert calm_world (Service good_creds) lunch_body = Inr standup
   \<and> fst (create_event calm_world (Service good_creds) ''Lunch''
            ''2024-05-01T12:00:00Z'' ''2024-05-01T13:00:00Z'' None fresh_state) = Inr None
   \<and> fst (create_event calm_world (Service good_creds) ''Lunch''
            ''2024-05-01T12:00:00Z'' ''2024-05-01T13:00:00Z'' None fresh_state) \<noteq> Inr (Some standup)"
  by (simp add: create_event_def calm_world_def bnd_def remote_def logger_info_def ret_def
      lunch_body_def)

text \<open>
  Claim C8, amended. \<^verbatim>\<open>create_event\<close> sends one insert request for the primary
  calendar whose body carries the summary, a start and an end with the given times and
  the time zone \<^verbatim>\<open>UTC\<close>, and the attendees as a list of e-mail objects, empty when
  none are supplied. It raises what the insertion raises and otherwise returns
  \<^verbatim>\<open>None\<close>: the created record is only used for the log line.
\<close>

theorem create_event_request:
  "\<exists>body.
     requests (snd (create_event w svc summary start_time end_time attendees s))
       = requests s @ [EventsInsert ''primary'' body]
     \<and> body_summary body = summary
     \<and> body_start body = \<lparr>tf_dateTime = start_time, tf_timeZone = ''UTC''\<rparr>
     \<and> body_end body = \<lparr>tf_dateTime = end_time, tf_timeZone = ''UTC''\<rparr>
     \<and> (attendees = None \<or> attendees = Some [] \<longrightarrow> body_attendees body = [])
     \<and> (\<forall>xs. attendees = Some xs \<longrightarrow> body_attendees body = map (\<lambda>e. \<lparr>email = e\<rparr>) xs)
     \<and> fst (create_event w svc summary start_time end_time attendees s)
         = (case events_insert w svc body of Inl e \<Rightarrow> Inl e | Inr created \<Rightarrow> Inr None)"
  by (auto simp: create_event_def bnd_def remote_def logger_info_def ret_def Let_def
      split: sum.splits option.splits)

theorem create_event_request_witness:
  "\<exists>body. requests (snd (create_event calm_world (Service good_creds) ''Lunch''
              ''2024-05-01T12:00:00Z'' ''2024-05-01T13:00:00Z'' None fresh_state))
            = [EventsInsert ''primary'' body]
          \<and> tf_timeZone (body_start body) = ''UTC'' \<and> tf_timeZone (body_end body) = ''UTC''
          \<and> body_attendees body = []"
  using create_event_request [of calm_world "Service good_creds" "''Lunch''"
      "''2024-05-01T12:00:00Z''" "''2024-05-01T13:00:00Z''" None fresh_state]
  by (auto simp: fresh_state_def)

subsection \<open>Listing\<close>

text \<open>
  Claim C9, as stated, fails: the line of an event reads \<^verbatim>\<open>event['summary']\<close>, and
  the Calendar API leaves that key out of an event without a title. Of three returned
  events the second has no title: one line is sent, then \<^verbatim>\<open>KeyError\<close> ends the
  listing.
\<close>

theorem list_events_untitled_counterexample:
  "analyze_intent untitled_world ''hello'' = Inr ''list_events''
   \<and> fst (list_today_events untitled_world (Service good_creds) fresh_state)
       = Inr [standup, untitled, holiday]
   \<and> fst (process_intent_and_perform_action untitled_world hello_update ''hello'' fresh_state)
       = Inl (KeyError ''summary'')
   \<and> outbox (snd (process_intent_and_perform_action untitled_world hello_update ''hello''
        fresh_state)) = [''2024-05-01T09:30:00Z - Standup'']"
proof -
  have 1: "analyze_intent untitled_world ''hello'' = Inr ''list_events''" by code_simp
  have 2: "fst (list_today_events untitled_world (Service good_creds) fresh_state)
       = Inr [standup, untitled, holiday]" by code_simp
  have 3: "fst (process_intent_and_perform_action untitled_world hello_update ''hello'' fresh_state)
       = Inl (KeyError ''summary'')" by code_simp
  have 4: "outbox (snd (process_intent_and_perform_action untitled_world hello_update ''hello''
        fresh_state)) = [''2024-05-01T09:30:00Z - Standup'']" by code_simp
  show ?thesis using 1 2 3 4 by simp
qed

text \<open>
  Claim C9, amended. When the intent is \<open>list_events\<close>, authentication succeeds, the
  adapter returns a non-empty sequence of events each of which has a start object and a
  summary, and the transport delivers, the pipeline sends one message per event, in the
  returned order, each of the form \<^verbatim>\<open>"{start} - {summary}"\<close> with the start's
  \<^verbatim>\<open>dateTime\<close> or, when that is absent, its \<^verbatim>\<open>date\<close>; it sends nothing else and
  returns normally.
\<close>

theorem list_events_replies:
  assumes "analyze_intent w txt = Inr ''list_events''"
    and "authenticate_google_calendar w s = (Inr svc, s1)"
    and "list_today_events w svc s1 = (Inr events, s2)"
    and "events \<noteq> []"
    and "\<forall>ev\<in>set events. ev_start ev \<noteq> None \<and> ev_summary ev \<noteq> None"
    and "delivers w"
  shows "process_intent_and_perform_action w u txt s
           = (Inr (), s2\<lparr>outbox := outbox s @ map line_of events\<rparr>)
         \<and> length (outbox s @ map line_of events) = length (outbox s) + length events"
proof -
  have o: "outbox s2 = outbox s"
    using assms(2,3) by (auto dest!: authenticate_silent list_today_events_silent silent_outbox)
  have "process_intent_and_perform_action w u txt s = list_branch w svc s1"
    unfolding process_intent_and_perform_action_def assms(1) bnd_lift_Inr
    by (simp add: bnd_def assms(2))
  also have "\<dots> = reply_events w events s2"
    unfolding list_branch_def using assms(4) by (simp add: bnd_def assms(3))
  also have "\<dots> = (Inr (), s2\<lparr>outbox := outbox s2 @ map line_of events\<rparr>)"
    by (rule reply_events_lines [OF assms(6,5)])
  finally show ?thesis by (simp add: o)
qed

theorem list_events_replies_witness:
  "analyze_intent listing_world ''hello'' = Inr ''list_events''
   \<and> fst (list_today_events listing_world (Service good_creds) fresh_state) = Inr [standup, holiday]
   \<and> delivers listing_world
   \<and> outbox (snd (process_intent_and_perform_action listing_world hello_update ''hello'' fresh_state))
       = [''2024-05-01T09:30:00Z - Standup'', ''2024-05-01 - Holiday'']"
proof -
  have a: "analyze_intent listing_world ''hello'' = Inr ''list_events''"
    by code_simp
  have b: "authenticate_google_calendar listing_world fresh_state
             = (Inr (Service good_creds), fresh_state)"
    by (simp add: authenticate_google_calendar_def listing_world_def calm_world_def fresh_state_def
        good_creds_def bnd_def os_path_exists_def ret_def lift_def)
  have c1: "fst (list_today_events listing_world (Service good_creds) fresh_state)
              = Inr [standup, holiday]"
    by code_simp
  then have c: "list_today_events listing_world (Service good_creds) fresh_state
      = (Inr [standup, holiday], snd (list_today_events listing_world (Service good_creds) fresh_state))"
    by (metis prod.collapse)
  have d: "[standup, holiday] \<noteq> []" by simp
  have e: "\<forall>ev\<in>set [standup, holiday]. ev_start ev \<noteq> None \<and> ev_summary ev \<noteq> None"
    by (simp add: standup_def holiday_def)
  have f: "delivers listing_world"
    by (simp add: delivers_def listing_world_def calm_world_def)
  have l: "line_of standup = ''2024-05-01T09:30:00Z - Standup''"
    "line_of holiday = ''2024-05-01 - Holiday''"
    by (simp_all add: line_of_def standup_def holiday_def fmt_opt_def)
  have o: "outbox fresh_state = []" by (simp add: fresh_state_def)
  show ?thesis
    using list_events_replies [OF a b c d e f, of hello_update] a c1 f
    by (simp add: l o)
qed

subsection \<open>Clean-up of the staged files\<close>

text \<open>
  Claim C10. The clean-up of the voice handler never raises, whatever the two path
  variables hold and whatever is on disk; it removes exactly the files at the assigned
  paths that exist, leaves everything else of the state as it is, and running it again
  changes nothing. It runs after the \<^verbatim>\<open>try\<close> block both when the block ends normally
  and after the error reply of the \<^verbatim>\<open>except\<close> clause.
\<close>

theorem voice_cleanup_guarded:
  "fst (voice_cleanup fp wp s) = Inr ()
   \<and> snd (voice_cleanup fp wp s)
       = s\<lparr>files := files s - {q. (fp = Some q \<or> wp = Some q) \<and> q \<noteq> []}\<rparr>
   \<and> voice_cleanup fp wp (snd (voice_cleanup fp wp s)) = (Inr (), snd (voice_cleanup fp wp s))
   \<and> (voice_try w u s0 = ((Inr (), fp, wp), s1) \<longrightarrow>
        handle_voice w u s0 = (Inr (), snd (voice_cleanup fp wp s1)))
   \<and> (voice_try w u s0 = ((Inl e, fp, wp), s1) \<longrightarrow>
        snd (handle_voice w u s0) = snd (voice_cleanup fp wp (snd (error_handler w e s1))))"
proof -
  have i: "voice_cleanup fp wp (snd (voice_cleanup fp wp s)) = (Inr (), snd (voice_cleanup fp wp s))"
    by (simp add: voice_cleanup_effect Diff_eq)
  have ok: "voice_try w u s0 = ((Inr (), fp, wp), s1) \<Longrightarrow>
        handle_voice w u s0 = (Inr (), snd (voice_cleanup fp wp s1))"
    by (simp add: handle_voice_def try_finally_def try_except_def lift_def voice_cleanup_effect)
  have err: "voice_try w u s0 = ((Inl e, fp, wp), s1) \<Longrightarrow>
        snd (handle_voice w u s0) = snd (voice_cleanup fp wp (snd (error_handler w e s1)))"
    by (simp add: handle_voice_def try_finally_def try_except_def lift_def voice_cleanup_effect
        split: prod.splits)
  show ?thesis using i ok err by (simp add: voice_cleanup_effect)
qed

theorem voice_cleanup_guarded_witness:
  "fst (voice_try bad_wav_world hello_update fresh_state)
     = (Inl (LibraryError ''not a WAV file''), Some ''voice_messages/7.oga'', Some ''voice_messages/7.wav'')
   \<and> ''voice_messages/7.oga'' \<in> files (snd (voice_try bad_wav_world hello_update fresh_state))
   \<and> ''voice_messages/7.wav'' \<in> files (snd (voice_try bad_wav_world hello_update fresh_state))
   \<and> ''voice_messages/7.oga'' \<notin> files (snd (handle_voice bad_wav_world hello_update fresh_state))
   \<and> ''voice_messages/7.wav'' \<notin> files (snd (handle_voice bad_wav_world hello_update fresh_state))"
proof -
  let ?e = "LibraryError ''not a WAV file''"
  let ?fp = "Some ''voice_messages/7.oga''"
  let ?wp = "Some ''voice_messages/7.wav''"
  let ?s1 = "snd (voice_try bad_wav_world hello_update fresh_state)"
  have t1: "fst (voice_try bad_wav_world hello_update fresh_state) = (Inl ?e, ?fp, ?wp)"
    by code_simp
  then have t: "voice_try bad_wav_world hello_update fresh_state = ((Inl ?e, ?fp, ?wp), ?s1)"
    by (metis prod.collapse)
  have m1: "''voice_messages/7.oga'' \<in> files ?s1" by code_simp
  have m2: "''voice_messages/7.wav'' \<in> files ?s1" by code_simp
  show ?thesis
    using voice_cleanup_guarded [of ?fp ?wp "snd (error_handler bad_wav_world ?e ?s1)"
        bad_wav_world hello_update fresh_state ?s1 ?e] t t1 m1 m2
    by simp
qed

text \<open>
  Claim C2. After the voice handler has run, whatever its outcome, no file that it staged
  is left: once the download was attempted the container file is absent, once the
  conversion was attempted the waveform file is absent, and a path at which there was no
  file before has none after. The paths are assigned before the files are written, so
  this covers a download or a conversion that fails half way, the classification error
  and the adapter error. (A file already at one of the paths survives only when the
  handler fails before it computes that path.)
\<close>

theorem staged_files_removed:
  "(\<forall>file. voice_get_file w = Inr file \<longrightarrow> oga_path u \<notin> files (snd (handle_voice w u s)))
   \<and> (\<forall>file. voice_get_file w = Inr file \<and> download_to_drive w file (oga_path u) = Written
         \<longrightarrow> wav_path u \<notin> files (snd (handle_voice w u s)))
   \<and> (oga_path u \<notin> files s \<longrightarrow> oga_path u \<notin> files (snd (handle_voice w u s)))
   \<and> (wav_path u \<notin> files s \<longrightarrow> wav_path u \<notin> files (snd (handle_voice w u s)))"
proof -
  obtain r fp wp s1 where t: "voice_try w u s = ((r, fp, wp), s1)"
    by (metis prod.collapse)
  from handle_voice_files [OF t] obtain s2 where
    e: "extends s1 s2" and
    f: "files (snd (handle_voice w u s)) = files s2 - {q. (fp = Some q \<or> wp = Some q) \<and> q \<noteq> []}"
    by blast
  from e have g: "files s2 \<subseteq> insert ''token.json'' (files s1)"
    by (auto simp: extends_def)
  from voice_try_cases [OF t] show ?thesis
  proof (elim disjE exE conjE)
    fix e assume "voice_get_file w = Inl e" "fp = None" "wp = None" "s1 = s"
    with f g show ?thesis
      using staged_paths_distinct [of u] by auto
  next
    fix fl assume "voice_get_file w = Inr fl"
      "download_to_drive w fl (oga_path u) \<noteq> Written"
      "fp = Some (oga_path u)" "wp = None" "files s1 \<subseteq> insert (oga_path u) (files s)"
    with f g show ?thesis
      using staged_paths_distinct [of u] by auto
  next
    fix fl assume "voice_get_file w = Inr fl"
      "download_to_drive w fl (oga_path u) = Written"
      "fp = Some (oga_path u)" "wp = Some (wav_path u)"
    with f show ?thesis
      using staged_paths_distinct [of u] by auto
  qed
qed

theorem staged_files_removed_witness:
  "voice_get_file calm_world = Inr ''file-1''
   \<and> download_to_drive calm_world ''file-1'' (oga_path hello_update) = Written
   \<and> oga_path hello_update = ''voice_messages/7.oga''
   \<and> wav_path hello_update = ''voice_messages/7.wav''
   \<and> ''voice_messages/7.oga'' \<notin> files fresh_state
   \<and> ''voice_messages/7.oga'' \<notin> files (snd (handle_voice calm_world hello_update fresh_state))
   \<and> ''voice_messages/7.wav'' \<notin> files (snd (handle_voice calm_world hello_update fresh_state))"
proof -
  have a: "voice_get_file calm_world = Inr ''file-1''"
    by (simp add: calm_world_def)
  have b: "download_to_drive calm_world ''file-1'' (oga_path hello_update) = Written"
    by (simp add: calm_world_def)
  have p: "oga_path hello_update = ''voice_messages/7.oga''"
    "wav_path hello_update = ''voice_messages/7.wav''"
    by code_simp+
  have n: "''voice_messages/7.oga'' \<notin> files fresh_state"
    by (simp add: fresh_state_def)
  show ?thesis
    using staged_files_removed [of calm_world hello_update fresh_state] a b n
    by (simp add: p)
qed

subsection \<open>Containment of adapter errors\<close>

text \<open>
  Claim C5, as stated, fails: the reply of the \<^verbatim>\<open>except\<close> clause is itself a call
  of the transport, and nothing catches its failure. Here the classifier raises, the
  handler catches that, and the generic failure message cannot be delivered: the
  handler raises and the user has only the echo.
\<close>

theorem failure_reply_undelivered_counterexample:
  "fst (text_try flaky_world hello_update fresh_state) = Inl (LibraryError ''503'')
   \<and> fst (handle_text flaky_world hello_update fresh_state) = Inl (LibraryError ''network'')
   \<and> outbox (snd (handle_text flaky_world hello_update fresh_state)) = [''Received Text: hello'']"
proof -
  have 1: "fst (text_try flaky_world hello_update fresh_state) = Inl (LibraryError ''503'')"
    by code_simp
  have 2: "fst (handle_text flaky_world hello_update fresh_state) = Inl (LibraryError ''network'')"
    by code_simp
  have 3: "outbox (snd (handle_text flaky_world hello_update fresh_state))
             = [''Received Text: hello'']"
    by code_simp
  show ?thesis using 1 2 3 by simp
qed

text \<open>
  Claim C5, amended. An exception raised inside the \<^verbatim>\<open>try\<close> block of a handler (by
  the transcription, the classifier, the authentication or a calendar call) never leaves
  the handler: the \<^verbatim>\<open>except\<close> clause logs it and sends the generic failure message.
  No request goes to the calendar after the error: the requests issued before it stay
  issued and none is added to undo them. When the failure message is delivered, the text
  handler returns normally and the voice handler, after the reply, returns what its
  clean-up returns. When the transport fails to deliver the failure message, the text
  handler raises that failure and no failure message is in the chat; the voice handler
  still runs its clean-up. A handler raises only when that delivery fails or, for a
  voice event, when the clean-up raises.
\<close>

theorem errors_caught_and_answered:
  "(text_try w u s = (Inl e, s1) \<longrightarrow>
      handle_text w u s = error_handler w e s1
      \<and> (\<exists>cs. requests s1 = requests s @ cs)
      \<and> requests (snd (handle_text w u s)) = requests s1
      \<and> (send_message w (outbox s1) ''An error occurred while processing your request.'' = None
          \<longrightarrow> handle_text w u s
                = (Inr (), s1\<lparr>logged := logged s1 @ [LogError e],
                     outbox := outbox s1 @ [''An error occurred while processing your request.'']\<rparr>))
      \<and> (send_message w (outbox s1) ''An error occurred while processing your request.'' = Some e'
          \<longrightarrow> fst (handle_text w u s) = Inl e' \<and> outbox (snd (handle_text w u s)) = outbox s1))
   \<and> (voice_try w u s = ((Inl e, fp, wp), s1) \<longrightarrow>
      handle_voice w u s = try_finally (error_handler w e) (voice_cleanup fp wp) s1
      \<and> (\<exists>cs. requests s1 = requests s @ cs)
      \<and> requests (snd (handle_voice w u s)) = requests s1
      \<and> (send_message w (outbox s1) ''An error occurred while processing your request.'' = None
          \<longrightarrow> outbox (snd (handle_voice w u s))
                = outbox s1 @ [''An error occurred while processing your request.'']
              \<and> fst (handle_voice w u s)
                = fst (voice_cleanup fp wp
                    (s1\<lparr>logged := logged s1 @ [LogError e],
                       outbox := outbox s1 @ [''An error occurred while processing your request.'']\<rparr>))))
   \<and> (fst (handle_text w u s) = Inl e'
    \<longrightarrow> (\<exists>e0 s0. text_try w u s = (Inl e0, s0)
          \<and> send_message w (outbox s0) ''An error occurred while processing your request.'' = Some e'))
   \<and> (fst (handle_voice w u s) = Inl e'
    \<longrightarrow> (\<exists>r0 fp0 wp0 s0. voice_try w u s = ((r0, fp0, wp0), s0)
          \<and> ((\<exists>e0. r0 = Inl e0
                \<and> send_message w (outbox s0) ''An error occurred while processing your request.''
                    = Some e')
              \<or> fst (voice_cleanup fp0 wp0 (snd (try_except (lift r0) (error_handler w) s0)))
                    = Inl e')))"
proof (intro conjI impI)
  assume a: "text_try w u s = (Inl e, s1)"
  then show h: "handle_text w u s = error_handler w e s1"
    by (simp add: handle_text_def try_except_def)
  from a have "extends s s1"
    using extending_text_try by (auto dest: extendingD)
  then show "\<exists>cs. requests s1 = requests s @ cs" by (rule extends_requests)
  show "requests (snd (handle_text w u s)) = requests s1"
    unfolding h by (simp add: error_handler_result split: option.splits)
  show "handle_text w u s
          = (Inr (), s1\<lparr>logged := logged s1 @ [LogError e],
               outbox := outbox s1 @ [''An error occurred while processing your request.'']\<rparr>)"
    if "send_message w (outbox s1) ''An error occurred while processing your request.'' = None"
    unfolding h using that by (simp add: error_handler_result)
  show "fst (handle_text w u s) = Inl e'"
    if "send_message w (outbox s1) ''An error occurred while processing your request.'' = Some e'"
    unfolding h using that by (simp add: error_handler_result)
  show "outbox (snd (handle_text w u s)) = outbox s1"
    if "send_message w (outbox s1) ''An error occurred while processing your request.'' = Some e'"
    unfolding h using that by (simp add: error_handler_result)
next
  assume a: "voice_try w u s = ((Inl e, fp, wp), s1)"
  then show h: "handle_voice w u s = try_finally (error_handler w e) (voice_cleanup fp wp) s1"
    by (simp add: handle_voice_def try_finally_def try_except_def lift_def)
  from a show "\<exists>cs. requests s1 = requests s @ cs"
    by (auto dest: voice_try_requests)
  show "requests (snd (handle_voice w u s)) = requests s1"
    unfolding h
    by (simp add: try_finally_def error_handler_result voice_cleanup_effect split: option.splits)
  show "outbox (snd (handle_voice w u s))
          = outbox s1 @ [''An error occurred while processing your request.'']"
    if "send_message w (outbox s1) ''An error occurred while processing your request.'' = None"
    unfolding h using that
    by (simp add: try_finally_def error_handler_result voice_cleanup_effect)
  show "fst (handle_voice w u s)
          = fst (voice_cleanup fp wp
              (s1\<lparr>logged := logged s1 @ [LogError e],
                 outbox := outbox s1 @ [''An error occurred while processing your request.'']\<rparr>))"
    if "send_message w (outbox s1) ''An error occurred while processing your request.'' = None"
    unfolding h using that
    by (simp add: try_finally_def error_handler_result split: prod.splits sum.splits)
next
  assume a: "fst (handle_text w u s) = Inl e'"
  obtain r0 s0 where t: "text_try w u s = (r0, s0)" by (cases "text_try w u s")
  with a show "\<exists>e0 s0. text_try w u s = (Inl e0, s0)
          \<and> send_message w (outbox s0) ''An error occurred while processing your request.'' = Some e'"
    by (cases r0)
      (auto simp: handle_text_def try_except_def error_handler_result split: option.splits)
next
  assume a: "fst (handle_voice w u s) = Inl e'"
  obtain r0 fp0 wp0 s0 where t: "voice_try w u s = ((r0, fp0, wp0), s0)"
    by (metis prod.collapse)
  with a have "\<exists>e0. r0 = Inl e0
      \<and> send_message w (outbox s0) ''An error occurred while processing your request.'' = Some e'"
    by (cases r0)
      (auto simp: handle_voice_def try_finally_def try_except_def lift_def error_handler_result
        voice_cleanup_effect split: option.splits)
  with t show "\<exists>r0 fp0 wp0 s0. voice_try w u s = ((r0, fp0, wp0), s0)
          \<and> ((\<exists>e0. r0 = Inl e0
                \<and> send_message w (outbox s0) ''An error occurred while processing your request.''
                    = Some e')
              \<or> fst (voice_cleanup fp0 wp0 (snd (try_except (lift r0) (error_handler w) s0)))
                    = Inl e')"
    by blast
qed

theorem errors_caught_and_answered_witness:
  "fst (text_try insert_fails_world hello_update fresh_state) = Inl (LibraryError ''HTTP 500'')
   \<and> send_message insert_fails_world
        (outbox (snd (text_try insert_fails_world hello_update fresh_state)))
        ''An error occurred while processing your request.'' = None
   \<and> fst (handle_text insert_fails_world hello_update fresh_state) = Inr ()
   \<and> outbox (snd (handle_text insert_fails_world hello_update fresh_state))
       = [''Received Text: hello'', ''An error occurred while processing your request.'']
   \<and> requests (snd (handle_text insert_fails_world hello_update fresh_state))
       = [EventsInsert ''primary''
            \<lparr>body_summary = ''Meeting with Team'',
             body_start = \<lparr>tf_dateTime = ''2024-05-01T11:00:00Z'', tf_timeZone = ''UTC''\<rparr>,
             body_end = \<lparr>tf_dateTime = ''2024-05-01T12:00:00Z'', tf_timeZone = ''UTC''\<rparr>,
             body_attendees = [\<lparr>email = ''guest1@example.com''\<rparr>, \<lparr>email = ''guest2@example.com''\<rparr>]\<rparr>]
   \<and> fst (voice_try bad_wav_world hello_update fresh_state)
       = (Inl (LibraryError ''not a WAV file''), Some ''voice_messages/7.oga'', Some ''voice_messages/7.wav'')
   \<and> fst (handle_voice bad_wav_world hello_update fresh_state) = Inr ()
   \<and> outbox (snd (handle_voice bad_wav_world hello_update fresh_state))
       = [''An error occurred while processing your request.'']
   \<and> fst (text_try flaky_world hello_update fresh_state) = Inl (LibraryError ''503'')
   \<and> send_message flaky_world
        (outbox (snd (text_try flaky_world hello_update fresh_state)))
        ''An error occurred while processing your request.'' = Some (LibraryError ''network'')
   \<and> fst (handle_text flaky_world hello_update fresh_state) = Inl (LibraryError ''network'')"
proof -
  let ?s1 = "snd (text_try insert_fails_world hello_update fresh_state)"
  let ?e = "LibraryError ''HTTP 500''"
  have t1: "fst (text_try insert_fails_world hello_update fresh_state) = Inl ?e"
    by code_simp
  then have t: "text_try insert_fails_world hello_update fresh_state = (Inl ?e, ?s1)"
    by (metis prod.collapse)
  have d: "send_message insert_fails_world (outbox ?s1)
             ''An error occurred while processing your request.'' = None"
    by (simp add: insert_fails_world_def calm_world_def)
  have o: "outbox ?s1 = [''Received Text: hello'']"
    by code_simp
  have q: "requests ?s1
       = [EventsInsert ''primary''
            \<lparr>body_summary = ''Meeting with Team'',
             body_start = \<lparr>tf_dateTime = ''2024-05-01T11:00:00Z'', tf_timeZone = ''UTC''\<rparr>,
             body_end = \<lparr>tf_dateTime = ''2024-05-01T12:00:00Z'', tf_timeZone = ''UTC''\<rparr>,
             body_attendees = [\<lparr>email = ''guest1@example.com''\<rparr>, \<lparr>email = ''guest2@example.com''\<rparr>]\<rparr>]"
    by code_simp
  from errors_caught_and_answered [of insert_fails_world hello_update fresh_state ?e ?s1] t d
  have h: "handle_text insert_fails_world hello_update fresh_state
          = (Inr (), ?s1\<lparr>logged := logged ?s1 @ [LogError ?e],
               outbox := outbox ?s1 @ [''An error occurred while processing your request.'']\<rparr>)"
    by blast
  let ?v1 = "snd (voice_try bad_wav_world hello_update fresh_state)"
  let ?ev = "LibraryError ''not a WAV file''"
  let ?fp = "Some ''voice_messages/7.oga''"
  let ?wp = "Some ''voice_messages/7.wav''"
  have v1: "fst (voice_try bad_wav_world hello_update fresh_state) = (Inl ?ev, ?fp, ?wp)"
    by code_simp
  then have v: "voice_try bad_wav_world hello_update fresh_state = ((Inl ?ev, ?fp, ?wp), ?v1)"
    by (metis prod.collapse)
  have vd: "send_message bad_wav_world (outbox ?v1)
              ''An error occurred while processing your request.'' = None"
    by (simp add: bad_wav_world_def calm_world_def)
  have vo: "outbox ?v1 = []"
    by code_simp
  from errors_caught_and_answered [of bad_wav_world hello_update fresh_state ?ev ?v1 _ ?fp ?wp] v vd
  have hv: "outbox (snd (handle_voice bad_wav_world hello_update fresh_state))
          = outbox ?v1 @ [''An error occurred while processing your request.'']
      \<and> fst (handle_voice bad_wav_world hello_update fresh_state)
          = fst (voice_cleanup ?fp ?wp
              (?v1\<lparr>logged := logged ?v1 @ [LogError ?ev],
                 outbox := outbox ?v1 @ [''An error occurred while processing your request.'']\<rparr>))"
    by blast
  let ?f1 = "snd (text_try flaky_world hello_update fresh_state)"
  let ?ef = "LibraryError ''503''"
  let ?en = "LibraryError ''network''"
  have f1: "fst (text_try flaky_world hello_update fresh_state) = Inl ?ef"
    by code_simp
  then have f: "text_try flaky_world hello_update fresh_state = (Inl ?ef, ?f1)"
    by (metis prod.collapse)
  have fd: "send_message flaky_world (outbox ?f1)
              ''An error occurred while processing your request.'' = Some ?en"
    by (simp add: flaky_world_def gemini_down_world_def calm_world_def)
  from errors_caught_and_answered [of flaky_world hello_update fresh_state ?ef ?f1 ?en] f fd
  have hf: "fst (handle_text flaky_world hello_update fresh_state) = Inl ?en"
    by blast
  show ?thesis using t1 d o q v1 hv f1 fd hf by (simp add: h vo voice_cleanup_effect)
qed

subsection \<open>The unknown intent\<close>

text \<open>
  Claim C6, as stated, fails: the pipeline authenticates with the calendar service
  before it looks at the intent. With an expired stored token and the intent
  \<open>unknown\<close> it sends an OAuth refresh; with a token file that cannot be read the
  authentication raises and the user gets the generic failure message, not the
  unsupported-intent message.
\<close>

theorem unknown_intent_counterexample:
  "analyze_intent stale_token_world ''hello'' = Inr ''unknown''
   \<and> requests (snd (process_intent_and_perform_action stale_token_world hello_update ''hello''
        fresh_state)) = [OAuthRefresh]
   \<and> analyze_intent no_auth_world ''hello'' = Inr ''unknown''
   \<and> outbox (snd (handle_text no_auth_world hello_update fresh_state))
       = [''Received Text: hello'', ''An error occurred while processing your request.'']"
proof -
  have 1: "analyze_intent stale_token_world ''hello'' = Inr ''unknown''" by code_simp
  have 2: "requests (snd (process_intent_and_perform_action stale_token_world hello_update ''hello''
        fresh_state)) = [OAuthRefresh]" by code_simp
  have 3: "analyze_intent no_auth_world ''hello'' = Inr ''unknown''" by code_simp
  have 4: "outbox (snd (handle_text no_auth_world hello_update fresh_state))
       = [''Received Text: hello'', ''An error occurred while processing your request.'']"
    by code_simp
  show ?thesis using 1 2 3 4 by simp
qed

text \<open>
  Claim C6, amended. When the label is none of the three action labels, the pipeline
  authenticates with the calendar service and then takes the last branch: it sends no
  list, insert or delete request; when the authentication succeeds and the reply is
  delivered, the reply is the fixed unsupported-intent message; when the authentication
  raises, the exception goes to the handler.
\<close>

theorem unknown_intent_effects:
  assumes "analyze_intent w txt = Inr label" and "label \<notin> action_labels"
  shows "process_intent_and_perform_action w u txt s
           = bnd (authenticate_google_calendar w) (\<lambda>svc. unknown_branch w) s
    \<and> filter is_events_call (requests (snd (process_intent_and_perform_action w u txt s)))
        = filter is_events_call (requests s)
    \<and> (\<forall>svc s1. authenticate_google_calendar w s = (Inr svc, s1)
          \<and> send_message w (outbox s) ''Unknown intent or action not supported.'' = None
        \<longrightarrow> process_intent_and_perform_action w u txt s
              = (Inr (), s1\<lparr>outbox := outbox s @ [''Unknown intent or action not supported.'']\<rparr>))
    \<and> (\<forall>e s1. authenticate_google_calendar w s = (Inl e, s1)
        \<longrightarrow> process_intent_and_perform_action w u txt s = (Inl e, s1))"
proof -
  have p: "process_intent_and_perform_action w u txt
           = bnd (authenticate_google_calendar w) (\<lambda>svc. unknown_branch w)"
    unfolding process_intent_and_perform_action_def assms(1) bnd_lift_Inr
    using assms(2) by (simp add: action_labels_def)
  obtain r0 s0 where a: "authenticate_google_calendar w s = (r0, s0)"
    by (cases "authenticate_google_calendar w s")
  note c = authenticate_calls [OF a]
  note o = silent_outbox [OF authenticate_silent [OF a]]
  have q: "filter is_events_call (requests (snd (process_intent_and_perform_action w u txt s)))
        = filter is_events_call (requests s)"
    unfolding p using a c
    by (cases r0) (auto simp: bnd_def unknown_branch_def reply_text_def split: option.splits)
  have ok: "process_intent_and_perform_action w u txt s
              = (Inr (), s1\<lparr>outbox := outbox s @ [''Unknown intent or action not supported.'']\<rparr>)"
    if "authenticate_google_calendar w s = (Inr svc, s1)"
      and "send_message w (outbox s) ''Unknown intent or action not supported.'' = None"
    for svc s1
    unfolding p using that a o
    by (simp add: bnd_def unknown_branch_def reply_text_def)
  have err: "process_intent_and_perform_action w u txt s = (Inl e, s1)"
    if "authenticate_google_calendar w s = (Inl e, s1)" for e s1
    unfolding p using that by (simp add: bnd_def)
  show ?thesis using p q ok err by auto
qed

theorem unknown_intent_effects_witness:
  "analyze_intent stale_token_world ''hello'' = Inr ''unknown''
   \<and> ''unknown'' \<notin> action_labels
   \<and> filter is_events_call (requests (snd (process_intent_and_perform_action stale_token_world
        hello_update ''hello'' fresh_state))) = []
   \<and> outbox (snd (process_intent_and_perform_action stale_token_world hello_update ''hello''
        fresh_state)) = [''Unknown intent or action not supported.'']"
proof -
  let ?s1 = "snd (authenticate_google_calendar stale_token_world fresh_state)"
  have a: "analyze_intent stale_token_world ''hello'' = Inr ''unknown''" by code_simp
  have l: "''unknown'' \<notin> action_labels" by (simp add: action_labels_def)
  have r: "requests fresh_state = []" "outbox fresh_state = []" by (simp_all add: fresh_state_def)
  have d: "send_message stale_token_world (outbox fresh_state)
             ''Unknown intent or action not supported.'' = None"
    by (simp add: stale_token_world_def calm_world_def)
  have g: "fst (authenticate_google_calendar stale_token_world fresh_state) = Inr (Service good_creds)"
    by code_simp
  then have g': "authenticate_google_calendar stale_token_world fresh_state
      = (Inr (Service good_creds), ?s1)"
    by (metis prod.collapse)
  note th = unknown_intent_effects [OF a l, of hello_update fresh_state]
  from th have q: "filter is_events_call (requests (snd (process_intent_and_perform_action
        stale_token_world hello_update ''hello'' fresh_state)))
      = filter is_events_call (requests fresh_state)"
    by blast
  from th g' d have ok: "process_intent_and_perform_action stale_token_world hello_update ''hello''
        fresh_state
      = (Inr (), ?s1\<lparr>outbox := outbox fresh_state @ [''Unknown intent or action not supported.'']\<rparr>)"
    by blast
  show ?thesis using a l q by (simp add: ok r)
qed

subsection \<open>Replies to a text event\<close>

text \<open>
  Claim C1, as stated, fails: the text handler first echoes the text it received, so a
  text event gets two replies even in the simplest run. Here every service answers and
  the classifier says \<open>unknown\<close>.
\<close>

theorem text_event_two_replies_counterexample:
  "outbox (snd (handle_text calm_world hello_update fresh_state))
     = [''Received Text: hello'', ''Unknown intent or action not supported.'']
   \<and> length (outbox (snd (handle_text calm_world hello_update fresh_state))) \<noteq> 1"
proof -
  have "outbox (snd (handle_text calm_world hello_update fresh_state))
     = [''Received Text: hello'', ''Unknown intent or action not supported.'']"
    by code_simp
  then show ?thesis by simp
qed

text \<open>
  Claim C1, amended. When the transport delivers, the text handler returns normally and
  sends at least two replies: first the echo of the received text, then a listing (the
  no-events line, or one line per event), a confirmation, the unsupported-intent
  message, or the generic error message, which may follow the event lines sent before
  the error.
\<close>

theorem text_event_replies:
  assumes "delivers w"
  shows "\<exists>ms. fst (handle_text w u s) = Inr ()
      \<and> outbox (snd (handle_text w u s)) = outbox s @ (''Received Text: '' @ msg_text u) # ms
      \<and> reply_shape ms
      \<and> length (outbox (snd (handle_text w u s))) \<ge> length (outbox s) + 2"
proof -
  let ?s0 = "s\<lparr>outbox := outbox s @ [''Received Text: '' @ msg_text u]\<rparr>"
  obtain r s1 where p: "process_intent_and_perform_action w u (msg_text u) ?s0 = (r, s1)"
    by (cases "process_intent_and_perform_action w u (msg_text u) ?s0")
  then have t: "text_try w u s = (r, s1)"
    by (simp add: text_try_def bnd_def reply_text_delivers [OF assms])
  from process_shape [OF assms p] obtain ms where
    o: "outbox s1 = outbox s @ (''Received Text: '' @ msg_text u) # ms" and
    c: "case r of Inr _ \<Rightarrow> reply_shape ms | Inl _ \<Rightarrow> list_all is_event_line ms"
    by auto
  have d: "send_message w sent m = None" for sent m
    using assms by (simp add: delivers_def)
  show ?thesis
  proof (cases r)
    case (Inr x)
    with t have "handle_text w u s = (Inr (), s1)"
      by (simp add: handle_text_def try_except_def)
    moreover from Inr c have "reply_shape ms" by simp
    ultimately show ?thesis
      using o by (intro exI [of _ ms]) (auto dest: reply_shape_nonempty simp: Suc_le_eq)
  next
    case (Inl e)
    with t have "handle_text w u s
        = (Inr (), s1\<lparr>logged := logged s1 @ [LogError e],
             outbox := outbox s1 @ [''An error occurred while processing your request.'']\<rparr>)"
      by (simp add: handle_text_def try_except_def error_handler_result d)
    moreover from Inl c
    have "reply_shape (ms @ [''An error occurred while processing your request.''])"
      by (simp add: reply_shape_def)
    ultimately show ?thesis
      using o
      by (intro exI [of _ "ms @ [''An error occurred while processing your request.'']"]) simp
  qed
qed

theorem text_event_replies_witness:
  "delivers listing_world
   \<and> (\<exists>ms. outbox (snd (handle_text listing_world hello_update fresh_state))
             = ''Received Text: hello'' # ms
           \<and> reply_shape ms)
   \<and> fst (handle_text listing_world hello_update fresh_state) = Inr ()"
proof -
  have f: "delivers listing_world"
    by (simp add: delivers_def listing_world_def calm_world_def)
  show ?thesis
    using text_event_replies [OF f, of hello_update fresh_state] f
    by (auto simp: fresh_state_def hello_update_def)
qed

end
